theory Spec2Isabelle
  imports Complex_Main "HOL-Library.Sublist" "HOL-Library.Log_Nat"
begin

section \<open>JavaScript values read by the product proxy\<close>

text \<open>
  The server forwards a product catalogue fetched from an upstream JSON API and narrows
  it by query parameters. The records are whatever the upstream sends (nothing is
  validated), and the query object is whatever the caller passes, so the three fields
  the filter reads and the four query fields are dynamically typed values.

  Scope of the value model: a field is absent (\<open>JUndefined\<close>) or holds a JSON primitive.
  Arrays and objects as field values, and list elements that are not objects, are
  outside the model.

  A Number is a double, given by the real number it denotes, or one of NaN and the two
  infinities; the two zeros are one value (no operator used here tells them apart). A
  string is the sequence of its UTF-16 code units, each given as an integer.
\<close>

datatype jsnum = NaN | NegInf | Fin real | PosInf

type_synonym ustring = "int list"

datatype jsval = JUndefined | JNull | JBool bool | JNum jsnum | JStr ustring

datatype error = TypeError

text \<open>The string of an ASCII literal.\<close>

definition ascii :: "string \<Rightarrow> ustring" where
  "ascii s = map of_char s"

subsection \<open>Numbers: the relational operators\<close>

text \<open>\<open>a < b\<close> on Numbers; every comparison with NaN is undefined, hence not true.\<close>

fun num_lt :: "jsnum \<Rightarrow> jsnum \<Rightarrow> bool" where
  "num_lt NaN b = False"
| "num_lt a NaN = False"
| "num_lt PosInf b = False"
| "num_lt a NegInf = False"
| "num_lt NegInf b = True"
| "num_lt a PosInf = True"
| "num_lt (Fin x) (Fin y) = (x < y)"

text \<open>\<open>a >= b\<close> is: \<open>a < b\<close> is neither true nor undefined; \<open>a <= b\<close> likewise from \<open>b < a\<close>.\<close>

definition num_ge :: "jsnum \<Rightarrow> jsnum \<Rightarrow> bool" where
  "num_ge a b = (a \<noteq> NaN \<and> b \<noteq> NaN \<and> \<not> num_lt a b)"

definition num_le :: "jsnum \<Rightarrow> jsnum \<Rightarrow> bool" where
  "num_le a b = (a \<noteq> NaN \<and> b \<noteq> NaN \<and> \<not> num_lt b a)"

definition isNaN :: "jsnum \<Rightarrow> bool" where
  "isNaN n = (n = NaN)"

subsection \<open>Numbers: the double nearest to a rational\<close>

text \<open>
  A numeric literal denotes a rational \<open>p / q\<close>; its Number value is the double
  nearest to it, a tie going to the double with the even significand, a value too
  large going to infinity and one too small to zero. (The language lets an engine round
  a literal of more than 20 significant digits less exactly; this is the rounding of
  an engine that does not use that freedom.)

  A finite double is \<open>m * 2 ^ e\<close> with \<open>m < 2 ^ 53\<close> and \<open>e\<close> from \<open>- 1074\<close> to \<open>971\<close>.
\<close>

text \<open>\<open>2 ^ k \<le> p / q\<close>, for positive \<open>p\<close> and \<open>q\<close>.\<close>

definition pow2_le :: "int \<Rightarrow> int \<Rightarrow> int \<Rightarrow> bool" where
  "pow2_le k p q = (if 0 \<le> k then q * 2 ^ nat k \<le> p else q \<le> p * 2 ^ nat (- k))"

text \<open>The \<open>k\<close> with \<open>2 ^ k \<le> p / q < 2 ^ (k + 1)\<close>: the difference of the bit lengths, or
  one less.\<close>

definition binade :: "int \<Rightarrow> int \<Rightarrow> int" where
  "binade p q =
     (let b = bitlen p - bitlen q
      in if pow2_le b p q then b else b - 1)"

text \<open>\<open>n / d\<close> rounded to the nearest integer, a tie to the even one.\<close>

definition round_half_even :: "int \<Rightarrow> int \<Rightarrow> int" where
  "round_half_even n d =
     (let fl = n div d; r = n mod d
      in if 2 * r < d then fl
         else if d < 2 * r then fl + 1
         else if even fl then fl else fl + 1)"

text \<open>The Number value of \<open>p / q\<close> for \<open>0 \<le> p\<close> and \<open>0 < q\<close>: the exponent \<open>e\<close> leaves 53
  bits to the significand, or is the least one; the significand is \<open>p / q / 2 ^ e\<close>
  rounded.\<close>

definition number_value :: "int \<Rightarrow> int \<Rightarrow> jsnum" where
  "number_value p q =
     (if p = 0 then Fin 0
      else
        (let e = max (binade p q - 52) (- 1074);
             m = (if 0 \<le> e then round_half_even p (q * 2 ^ nat e)
                  else round_half_even (p * 2 ^ nat (- e)) q)
         in if 0 \<le> e then
              (if 2 ^ 1024 \<le> m * 2 ^ nat e then PosInf else Fin (of_int (m * 2 ^ nat e)))
            else Fin (of_int m / of_int (2 ^ nat (- e)))))"

text \<open>The Number value of the decimal \<open>m * 10 ^ k\<close>.\<close>

definition decimal_value :: "int \<Rightarrow> int \<Rightarrow> jsnum" where
  "decimal_value m k =
     (if 0 \<le> k then number_value (m * 10 ^ nat k) 1 else number_value m (10 ^ nat (- k)))"

subsection \<open>Strings: trim and includes\<close>

text \<open>White space and line terminators: tab, line feed, vertical tab, form feed,
  carriage return, space, no-break space, the other space separators of Unicode, the
  line and paragraph separators, and the byte order mark.\<close>

definition is_whitespace :: "int \<Rightarrow> bool" where
  "is_whitespace c =
     (c \<in> {9, 10, 11, 12, 13, 32, 160, 5760, 8232, 8233, 8239, 8287, 12288, 65279}
      \<or> (8192 \<le> c \<and> c \<le> 8202))"

definition trimStart :: "ustring \<Rightarrow> ustring" where
  "trimStart s = dropWhile is_whitespace s"

definition trim :: "ustring \<Rightarrow> ustring" where
  "trim s = rev (dropWhile is_whitespace (rev (dropWhile is_whitespace s)))"

text \<open>\<open>s.includes(t)\<close>: \<open>t\<close> occurs in \<open>s\<close> as a contiguous run of code units.\<close>

primrec str_includes :: "ustring \<Rightarrow> ustring \<Rightarrow> bool" where
  "str_includes [] t = (t = [])"
| "str_includes (c # cs) t = (prefix t (c # cs) \<or> str_includes cs t)"

text \<open>
  \<open>toLowerCase\<close> is the platform's: it depends on the Unicode case tables and on the
  context of a letter. The functions below that call it take it as their first
  argument, and what is proved of them holds for every such function.
\<close>

subsection \<open>Numeric literals in strings: parseFloat and ToNumber\<close>

definition is_digit :: "int \<Rightarrow> bool" where
  "is_digit c = (48 \<le> c \<and> c \<le> 57)"

text \<open>The value of a digit: \<open>0\<close> to \<open>9\<close>, \<open>a\<close> to \<open>f\<close>, \<open>A\<close> to \<open>F\<close>.\<close>

definition digit_val :: "int \<Rightarrow> int" where
  "digit_val c =
     (if 48 \<le> c \<and> c \<le> 57 then c - 48
      else if 97 \<le> c \<and> c \<le> 102 then c - 87
      else c - 55)"

definition digits_val :: "int \<Rightarrow> ustring \<Rightarrow> int" where
  "digits_val base ds = foldl (\<lambda>a c. base * a + digit_val c) 0 ds"

text \<open>The longest exponent part (\<open>e\<close> or \<open>E\<close>, an optional sign, at least one digit) at
  the head of a string, with the rest of the string.\<close>

definition exponent_part :: "ustring \<Rightarrow> (int \<times> ustring) option" where
  "exponent_part s =
     (case s of
        [] \<Rightarrow> None
      | c # r \<Rightarrow>
          if c = of_char CHR ''e'' \<or> c = of_char CHR ''E'' then
            (let neg = (case r of [] \<Rightarrow> False | d # _ \<Rightarrow> d = of_char CHR ''-'');
                 r' = (case r of [] \<Rightarrow> r
                       | d # r2 \<Rightarrow>
                           if d = of_char CHR ''-'' \<or> d = of_char CHR ''+'' then r2 else r);
                 ds = takeWhile is_digit r'
             in if ds = [] then None
                else Some (if neg then - digits_val 10 ds else digits_val 10 ds,
                           dropWhile is_digit r'))
          else None)"

text \<open>The longest unsigned decimal literal at the head of a string: \<open>Infinity\<close>, digits
  with an optional fraction, or a fraction alone, each but \<open>Infinity\<close> with an optional
  exponent part.\<close>

definition unsigned_decimal :: "ustring \<Rightarrow> (jsnum \<times> ustring) option" where
  "unsigned_decimal s =
     (if prefix (ascii ''Infinity'') s then Some (PosInf, drop 8 s)
      else
        (let ip = takeWhile is_digit s;
             r1 = dropWhile is_digit s;
             dot = (case r1 of [] \<Rightarrow> False | c # _ \<Rightarrow> c = of_char CHR ''.'');
             fp = (if dot then takeWhile is_digit (tl r1) else []);
             r2 = (if dot then dropWhile is_digit (tl r1) else r1)
         in if ip = [] \<and> fp = [] then None
            else
              (case exponent_part r2 of
                 None \<Rightarrow>
                   Some (decimal_value (digits_val 10 (ip @ fp)) (- int (length fp)), r2)
               | Some (e, r3) \<Rightarrow>
                   Some (decimal_value (digits_val 10 (ip @ fp)) (e - int (length fp)), r3))))"

fun negate :: "jsnum \<Rightarrow> jsnum" where
  "negate NaN = NaN"
| "negate NegInf = PosInf"
| "negate PosInf = NegInf"
| "negate (Fin x) = Fin (- x)"

definition str_decimal_literal :: "ustring \<Rightarrow> (jsnum \<times> ustring) option" where
  "str_decimal_literal s =
     (case s of
        [] \<Rightarrow> None
      | c # r \<Rightarrow>
          if c = of_char CHR ''-''
          then map_option (\<lambda>(v, rest). (negate v, rest)) (unsigned_decimal r)
          else if c = of_char CHR ''+'' then unsigned_decimal r
          else unsigned_decimal s)"

text \<open>\<open>parseFloat\<close> of a string: leading white space is skipped, the longest decimal
  literal at the head is read, anything after it is ignored.\<close>

definition parseFloat_str :: "ustring \<Rightarrow> jsnum" where
  "parseFloat_str s =
     (case str_decimal_literal (trimStart s) of None \<Rightarrow> NaN | Some (v, rest) \<Rightarrow> v)"

text \<open>\<open>parseFloat\<close> converts its argument to a string first. The strings of
  \<open>undefined\<close>, \<open>null\<close>, \<open>true\<close> and \<open>false\<close> start with no literal; the string of a
  Number reads back as that Number.\<close>

fun parseFloat :: "jsval \<Rightarrow> jsnum" where
  "parseFloat (JStr s) = parseFloat_str s"
| "parseFloat (JNum n) = n"
| "parseFloat v = NaN"

text \<open>Binary, octal and hexadecimal integer literals, which ToNumber reads and
  \<open>parseFloat\<close> does not.\<close>

definition is_digit_of :: "int \<Rightarrow> int \<Rightarrow> bool" where
  "is_digit_of base c =
     ((48 \<le> c \<and> c < 48 + min base 10) \<or>
      (base = 16 \<and> ((97 \<le> c \<and> c \<le> 102) \<or> (65 \<le> c \<and> c \<le> 70))))"

definition non_decimal_literal :: "ustring \<Rightarrow> jsnum option" where
  "non_decimal_literal s =
     (case s of
        z # p # ds \<Rightarrow>
          (let base = (if p = of_char CHR ''x'' \<or> p = of_char CHR ''X'' then 16
                       else if p = of_char CHR ''o'' \<or> p = of_char CHR ''O'' then 8
                       else if p = of_char CHR ''b'' \<or> p = of_char CHR ''B'' then 2
                       else (0::int))
           in if z = of_char CHR ''0'' \<and> base \<noteq> 0 \<and> ds \<noteq> []
                 \<and> list_all (is_digit_of base) ds
              then Some (number_value (digits_val base ds) 1) else None)
      | _ \<Rightarrow> None)"

text \<open>ToNumber of a string: white space around it is dropped; the empty string is 0; the
  whole of what remains must be one numeric literal.\<close>

definition string_to_number :: "ustring \<Rightarrow> jsnum" where
  "string_to_number s =
     (let t = trim s
      in if t = [] then Fin 0
         else
           (case non_decimal_literal t of
              Some v \<Rightarrow> v
            | None \<Rightarrow>
                (case str_decimal_literal t of
                   Some (v, rest) \<Rightarrow> if rest = [] then v else NaN
                 | None \<Rightarrow> NaN)))"

subsection \<open>Operators on values\<close>

text \<open>ToBoolean.\<close>

fun truthy :: "jsval \<Rightarrow> bool" where
  "truthy JUndefined = False"
| "truthy JNull = False"
| "truthy (JBool b) = b"
| "truthy (JNum n) = (n \<noteq> NaN \<and> n \<noteq> Fin 0)"
| "truthy (JStr s) = (s \<noteq> [])"

text \<open>\<open>a || b\<close> and \<open>a ?? b\<close>.\<close>

definition or_else :: "jsval \<Rightarrow> jsval \<Rightarrow> jsval" where
  "or_else a b = (if truthy a then a else b)"

definition nullish :: "jsval \<Rightarrow> bool" where
  "nullish v = (v = JUndefined \<or> v = JNull)"

definition coalesce :: "jsval \<Rightarrow> jsval \<Rightarrow> jsval" where
  "coalesce a b = (if nullish a then b else a)"

text \<open>\<open>a === b\<close>: the same type and the same value, and NaN equals nothing.\<close>

definition strict_eq :: "jsval \<Rightarrow> jsval \<Rightarrow> bool" where
  "strict_eq a b = (a = b \<and> a \<noteq> JNum NaN)"

text \<open>ToNumber of a primitive.\<close>

fun to_number :: "jsval \<Rightarrow> jsnum" where
  "to_number JUndefined = NaN"
| "to_number JNull = Fin 0"
| "to_number (JBool b) = Fin (if b then 1 else 0)"
| "to_number (JNum n) = n"
| "to_number (JStr s) = string_to_number s"

text \<open>\<open>v >= n\<close> and \<open>v <= n\<close> where the right operand is a Number: the left operand is
  converted to a Number and the two are compared as Numbers.\<close>

definition js_ge :: "jsval \<Rightarrow> jsnum \<Rightarrow> bool" where
  "js_ge v n = num_ge (to_number v) n"

definition js_le :: "jsval \<Rightarrow> jsnum \<Rightarrow> bool" where
  "js_le v n = num_le (to_number v) n"

text \<open>Method calls. Only a string has \<open>trim\<close> and \<open>toLowerCase\<close>; on \<open>undefined\<close> and
  \<open>null\<close> the property read raises, on a boolean or a number the call does.\<close>

fun call_trim :: "jsval \<Rightarrow> error + ustring" where
  "call_trim (JStr s) = Inr (trim s)"
| "call_trim v = Inl TypeError"

fun call_toLowerCase :: "(ustring \<Rightarrow> ustring) \<Rightarrow> jsval \<Rightarrow> error + ustring" where
  "call_toLowerCase toLowerCase (JStr s) = Inr (toLowerCase s)"
| "call_toLowerCase toLowerCase v = Inl TypeError"

text \<open>\<open>xs.filter(f)\<close> where the callback may raise: the elements are tested from left
  to right and the first exception ends the call.\<close>

fun filter_js :: "('a \<Rightarrow> error + bool) \<Rightarrow> 'a list \<Rightarrow> error + 'a list" where
  "filter_js f [] = Inr []"
| "filter_js f (x # xs) =
     (case f x of
        Inl e \<Rightarrow> Inl e
      | Inr keep \<Rightarrow>
          (case filter_js f xs of
             Inl e \<Rightarrow> Inl e
           | Inr ys \<Rightarrow> Inr (if keep then x # ys else ys)))"

section \<open>filterProducts\<close>

text \<open>A product as the filter sees it: the fields \<open>title\<close>, \<open>slug\<close> and \<open>price\<close>; every
  other field of the record is carried along in the record's extension.\<close>

record product =
  title :: jsval
  slug :: jsval
  price :: jsval

text \<open>The query object: \<open>query.title\<close>, \<open>query.slug\<close>, \<open>query.minPrice\<close>,
  \<open>query.maxPrice\<close>.\<close>

record query =
  query_title :: jsval
  query_slug :: jsval
  query_minPrice :: jsval
  query_maxPrice :: jsval

text \<open>The guard \<open>v && v.trim()\<close> of the title and slug blocks.\<close>

definition text_guard :: "jsval \<Rightarrow> error + bool" where
  "text_guard v =
     (if truthy v
      then (case call_trim v of Inl e \<Rightarrow> Inl e | Inr s \<Rightarrow> Inr (truthy (JStr s)))
      else Inr False)"

text \<open>The guard \<open>v != null && v !== ''\<close> of the price blocks.\<close>

definition price_guard :: "jsval \<Rightarrow> bool" where
  "price_guard v = (\<not> nullish v \<and> \<not> strict_eq v (JStr []))"

text \<open>The four callbacks.\<close>

definition title_includes ::
  "(ustring \<Rightarrow> ustring) \<Rightarrow> ustring \<Rightarrow> 'a product_scheme \<Rightarrow> error + bool" where
  "title_includes toLowerCase titleLower p =
     (case call_toLowerCase toLowerCase (or_else (title p) (JStr [])) of
        Inl e \<Rightarrow> Inl e
      | Inr t \<Rightarrow> Inr (str_includes t titleLower))"

definition slug_equals :: "ustring \<Rightarrow> 'a product_scheme \<Rightarrow> error + bool" where
  "slug_equals slugVal p = Inr (strict_eq (or_else (slug p) (JStr [])) (JStr slugVal))"

definition price_at_least :: "jsnum \<Rightarrow> 'a product_scheme \<Rightarrow> error + bool" where
  "price_at_least mn p = Inr (js_ge (coalesce (price p) (JNum (Fin 0))) mn)"

definition price_at_most :: "jsnum \<Rightarrow> 'a product_scheme \<Rightarrow> error + bool" where
  "price_at_most mx p = Inr (js_le (coalesce (price p) (JNum (Fin 0))) mx)"

text \<open>
  Each of the four blocks of \<open>filterProducts\<close> is an \<open>if\<close> around one
  \<open>result = result.filter(callback)\<close>. What a block asks for depends on the query alone:
  its guard raises (\<open>Inl\<close>), the block is skipped (\<open>Inr None\<close>), or \<open>result\<close> is narrowed
  by a callback (\<open>Inr (Some callback)\<close>).
\<close>

definition title_constraint ::
  "(ustring \<Rightarrow> ustring) \<Rightarrow> query
     \<Rightarrow> error + ('a product_scheme \<Rightarrow> error + bool) option" where
  "title_constraint toLowerCase q =
     (case text_guard (query_title q) of
        Inl e \<Rightarrow> Inl e
      | Inr active \<Rightarrow>
          if active then
            (case call_trim (query_title q) of
               Inl e \<Rightarrow> Inl e
             | Inr s \<Rightarrow> Inr (Some (title_includes toLowerCase (toLowerCase s))))
          else Inr None)"

definition slug_constraint ::
  "query \<Rightarrow> error + ('a product_scheme \<Rightarrow> error + bool) option" where
  "slug_constraint q =
     (case text_guard (query_slug q) of
        Inl e \<Rightarrow> Inl e
      | Inr active \<Rightarrow>
          if active then
            (case call_trim (query_slug q) of
               Inl e \<Rightarrow> Inl e
             | Inr slugVal \<Rightarrow> Inr (Some (slug_equals slugVal)))
          else Inr None)"

definition minPrice_constraint ::
  "query \<Rightarrow> error + ('a product_scheme \<Rightarrow> error + bool) option" where
  "minPrice_constraint q =
     (if price_guard (query_minPrice q) then
        (let mn = parseFloat (query_minPrice q)
         in if \<not> isNaN mn then Inr (Some (price_at_least mn)) else Inr None)
      else Inr None)"

definition maxPrice_constraint ::
  "query \<Rightarrow> error + ('a product_scheme \<Rightarrow> error + bool) option" where
  "maxPrice_constraint q =
     (if price_guard (query_maxPrice q) then
        (let mx = parseFloat (query_maxPrice q)
         in if \<not> isNaN mx then Inr (Some (price_at_most mx)) else Inr None)
      else Inr None)"

text \<open>One block applied to the current \<open>result\<close>, on lists as values.\<close>

definition narrow ::
  "error + ('a \<Rightarrow> error + bool) option \<Rightarrow> 'a list \<Rightarrow> error + 'a list" where
  "narrow c result =
     (case c of
        Inl e \<Rightarrow> Inl e
      | Inr None \<Rightarrow> Inr result
      | Inr (Some f) \<Rightarrow> filter_js f result)"

text \<open>\<open>filterProducts(products, query)\<close>: \<open>result\<close> starts as the copy \<open>[...products]\<close>
  (the same list, as a value), then the blocks run in the order title, slug, minPrice,
  maxPrice; an exception in a block ends the call.\<close>

definition filterProducts ::
  "(ustring \<Rightarrow> ustring) \<Rightarrow> 'a product_scheme list \<Rightarrow> query
     \<Rightarrow> error + 'a product_scheme list" where
  "filterProducts toLowerCase products q =
     (case narrow (title_constraint toLowerCase q) products of
        Inl e \<Rightarrow> Inl e
      | Inr r1 \<Rightarrow>
          (case narrow (slug_constraint q) r1 of
             Inl e \<Rightarrow> Inl e
           | Inr r2 \<Rightarrow>
               (case narrow (minPrice_constraint q) r2 of
                  Inl e \<Rightarrow> Inl e
                | Inr r3 \<Rightarrow> narrow (maxPrice_constraint q) r3)))"

subsection \<open>filterProducts on a store of arrays and records\<close>

text \<open>
  The same function with the arrays and the records as objects in a store, for what the
  call does to its input. An array holds references to records; \<open>[...products]\<close> and
  every \<open>filter\<close> allocate a new array; the variable \<open>result\<close> holds a reference to the
  current one; a callback reads the record its argument refers to. Addresses from
  \<open>next_addr\<close> on are free.
\<close>

type_synonym addr = nat

record store =
  objects :: "addr \<Rightarrow> product option"
  arrays :: "addr \<Rightarrow> addr list option"
  next_addr :: addr

definition new_array :: "addr list \<Rightarrow> store \<Rightarrow> addr \<times> store" where
  "new_array refs st =
     (next_addr st,
      st\<lparr>arrays := (arrays st)(next_addr st \<mapsto> refs), next_addr := Suc (next_addr st)\<rparr>)"

text \<open>A callback on a reference: reading a field of what is not a record raises.\<close>

definition on_record :: "store \<Rightarrow> (product \<Rightarrow> error + bool) \<Rightarrow> addr \<Rightarrow> error + bool" where
  "on_record st f r = (case objects st r of None \<Rightarrow> Inl TypeError | Some p \<Rightarrow> f p)"

text \<open>One block applied to the array that \<open>result\<close> refers to; an exception leaves the
  store as it was when raised.\<close>

definition narrow_st ::
  "error + (product \<Rightarrow> error + bool) option \<Rightarrow> addr \<Rightarrow> store \<Rightarrow> (error + addr) \<times> store" where
  "narrow_st c result st =
     (case c of
        Inl e \<Rightarrow> (Inl e, st)
      | Inr None \<Rightarrow> (Inr result, st)
      | Inr (Some f) \<Rightarrow>
          (case arrays st result of
             None \<Rightarrow> (Inl TypeError, st)
           | Some refs \<Rightarrow>
               (case filter_js (on_record st f) refs of
                  Inl e \<Rightarrow> (Inl e, st)
                | Inr kept \<Rightarrow> (case new_array kept st of (a, st') \<Rightarrow> (Inr a, st')))))"

text \<open>Sequencing: the next block runs on the reference the previous one left in
  \<open>result\<close>, unless that one raised.\<close>

definition and_then ::
  "(error + addr) \<times> store \<Rightarrow> (addr \<Rightarrow> store \<Rightarrow> (error + addr) \<times> store)
     \<Rightarrow> (error + addr) \<times> store" where
  "and_then m f = (case m of (Inl e, st) \<Rightarrow> (Inl e, st) | (Inr result, st) \<Rightarrow> f result st)"

text \<open>\<open>[...products]\<close>: the elements of the array are read and put in a new array; what
  is not an array cannot be spread.\<close>

definition spread :: "addr \<Rightarrow> store \<Rightarrow> (error + addr) \<times> store" where
  "spread products st =
     (case arrays st products of
        None \<Rightarrow> (Inl TypeError, st)
      | Some refs \<Rightarrow> (case new_array refs st of (a, st') \<Rightarrow> (Inr a, st')))"

definition filterProducts_st ::
  "(ustring \<Rightarrow> ustring) \<Rightarrow> addr \<Rightarrow> query \<Rightarrow> store \<Rightarrow> (error + addr) \<times> store" where
  "filterProducts_st toLowerCase products q st =
     and_then
       (and_then
          (and_then
             (and_then (spread products st) (narrow_st (title_constraint toLowerCase q)))
             (narrow_st (slug_constraint q)))
          (narrow_st (minPrice_constraint q)))
       (narrow_st (maxPrice_constraint q))"

text \<open>The list of records an array denotes in a store.\<close>

definition records_of :: "store \<Rightarrow> addr \<Rightarrow> product list option" where
  "records_of st a =
     (case arrays st a of
        None \<Rightarrow> None
      | Some refs \<Rightarrow>
          if list_all (\<lambda>r. objects st r \<noteq> None) refs
          then Some (map (\<lambda>r. the (objects st r)) refs) else None)"

text \<open>A later store that has every record of an earlier one unchanged, and every array
  that was allocated in the earlier one.\<close>

definition store_le :: "store \<Rightarrow> store \<Rightarrow> bool" where
  "store_le st st' =
     (objects st' = objects st \<and> next_addr st \<le> next_addr st' \<and>
      (\<forall>a. a < next_addr st \<longrightarrow> arrays st' a = arrays st a))"

subsection \<open>The properties of the filter, in the specification's words\<close>

text \<open>A query field that imposes no constraint: absent, or a blank string.\<close>

definition absent_or_blank :: "jsval \<Rightarrow> bool" where
  "absent_or_blank v = (case v of JUndefined \<Rightarrow> True | JStr s \<Rightarrow> trim s = [] | _ \<Rightarrow> False)"

text \<open>A query field as a request's query string gives it: absent, or a string.\<close>

definition absent_or_string :: "jsval \<Rightarrow> bool" where
  "absent_or_string v = (case v of JUndefined \<Rightarrow> True | JStr s \<Rightarrow> True | _ \<Rightarrow> False)"

text \<open>A record's title that is text, or that the filter reads as the empty string
  (absent, \<open>null\<close>, or another value that counts as false).\<close>

definition text_or_absent :: "jsval \<Rightarrow> bool" where
  "text_or_absent v = (case v of JStr s \<Rightarrow> True | _ \<Rightarrow> \<not> truthy v)"

definition title_text :: "'a product_scheme \<Rightarrow> ustring" where
  "title_text p = (case title p of JStr s \<Rightarrow> s | _ \<Rightarrow> [])"

text \<open>\<open>v\<close> occurs in \<open>t\<close> as a contiguous run once both are lower-cased: containment
  without regard to letter case, as \<open>toLowerCase\<close> decides it.\<close>

definition contains_ci :: "(ustring \<Rightarrow> ustring) \<Rightarrow> ustring \<Rightarrow> ustring \<Rightarrow> bool" where
  "contains_ci toLowerCase t v = sublist (toLowerCase v) (toLowerCase t)"

text \<open>A record's price as a number: 0 when the price is missing (absent or \<open>null\<close>);
  a price that is present and not a number counts as the number the comparison
  operators convert it to.\<close>

definition price_number :: "'a product_scheme \<Rightarrow> jsnum" where
  "price_number p =
     (case price p of
        JNum n \<Rightarrow> n
      | JUndefined \<Rightarrow> Fin 0
      | JNull \<Rightarrow> Fin 0
      | v \<Rightarrow> to_number v)"



text \<open>The bound a \<open>minPrice\<close> or \<open>maxPrice\<close> field stands for: none when the field does not
  parse as a number (absent and blank fields do not).\<close>

definition bound_of :: "jsval \<Rightarrow> jsnum option" where
  "bound_of v = (if isNaN (parseFloat v) then None else Some (parseFloat v))"

definition within_bounds :: "jsnum option \<Rightarrow> jsnum option \<Rightarrow> jsnum \<Rightarrow> bool" where
  "within_bounds lo hi x =
     ((case lo of None \<Rightarrow> True | Some m \<Rightarrow> num_le m x) \<and>
      (case hi of None \<Rightarrow> True | Some m \<Rightarrow> num_le x m))"

text \<open>The two products and the empty query of the specification's examples.\<close>

definition shoe :: product where
  "shoe = \<lparr>title = JStr (ascii ''Shoe''), slug = JStr (ascii ''shoe-1''),
           price = JNum (Fin 10)\<rparr>"

definition hat :: product where
  "hat = \<lparr>title = JStr (ascii ''Hat''), slug = JStr (ascii ''hat-1''),
          price = JNum (Fin 50)\<rparr>"

text \<open>\<open>toLowerCase\<close> as it acts on ASCII text: the letters \<open>A\<close> to \<open>Z\<close> go to \<open>a\<close> to
  \<open>z\<close>, every other code unit below 128 stays. It stands for \<open>toLowerCase\<close> in the
  examples, which are ASCII.\<close>

definition lower_ascii :: "ustring \<Rightarrow> ustring" where
  "lower_ascii s = map (\<lambda>c. if 65 \<le> c \<and> c \<le> 90 then c + 32 else c) s"

definition no_query :: query where
  "no_query = \<lparr>query_title = JUndefined, query_slug = JUndefined,
                query_minPrice = JUndefined, query_maxPrice = JUndefined\<rparr>"

text \<open>A store for the examples: the two records, and at address 2 the array of both.\<close>

definition example_store :: store where
  "example_store =
     \<lparr>objects = (\<lambda>a. if a = 0 then Some shoe else if a = 1 then Some hat else None),
      arrays = (\<lambda>a. if a = 2 then Some [0, 1] else None),
      next_addr = 3\<rparr>"

section \<open>The fetcher\<close>

text \<open>
  What one \<open>fetch\<close> call comes to: the promise rejects with a network error, it rejects
  because the attempt's timer (15000 ms) aborted the request, or it resolves to a
  response with a status and a body. The body is what \<open>response.json()\<close> resolves to, or
  \<open>None\<close> when that rejects.
\<close>

datatype 'a outcome = NetworkError | Aborted | Response nat "'a option"

definition FETCH_RETRIES :: nat where
  "FETCH_RETRIES = 2"

definition API_PRODUCTS :: string where
  "API_PRODUCTS = ''https://api.escuelajs.co/api/v1/products''"

text \<open>\<open>response.ok\<close>: the status is in the range 200 to 299.\<close>

definition ok :: "nat \<Rightarrow> bool" where
  "ok st = (200 \<le> st \<and> st \<le> 299)"

text \<open>The \<open>try\<close> block of \<open>getAll\<close> after \<open>fetch\<close>: \<open>Some\<close> is the value it returns,
  \<open>None\<close> means control passes to the \<open>catch\<close> block.\<close>

fun try_block :: "'a outcome \<Rightarrow> 'a option" where
  "try_block NetworkError = None"
| "try_block Aborted = None"
| "try_block (Response st body) = (if \<not> ok st then None else body)"

text \<open>The network as \<open>getAll\<close> sees it: the upstream is the sequence of the outcomes of
  the \<open>fetch\<close> calls, in the order of the calls; the state counts the calls made and the
  time spent waiting between attempts.\<close>

record net =
  calls :: nat
  waited_ms :: nat

definition fetch :: "(nat \<Rightarrow> 'a outcome) \<Rightarrow> net \<Rightarrow> 'a outcome \<times> net" where
  "fetch upstream w = (upstream (calls w), w\<lparr>calls := Suc (calls w)\<rparr>)"

definition sleep :: "nat \<Rightarrow> net \<Rightarrow> net" where
  "sleep ms w = w\<lparr>waited_ms := waited_ms w + ms\<rparr>"

text \<open>The loop of \<open>getAll\<close> from the iteration \<open>attempt\<close> on.\<close>

function getAll_loop :: "(nat \<Rightarrow> 'a list outcome) \<Rightarrow> nat \<Rightarrow> net \<Rightarrow> 'a list \<times> net" where
  "getAll_loop upstream attempt w =
     (if attempt \<le> FETCH_RETRIES + 1 then
        (case fetch upstream w of
           (response, w1) \<Rightarrow>
             (case try_block response of
                Some payload \<Rightarrow> (payload, w1)
              | None \<Rightarrow>
                  if attempt \<le> FETCH_RETRIES
                  then getAll_loop upstream (attempt + 1) (sleep 2000 w1)
                  else ([], w1)))
      else ([], w))"
  by pat_completeness auto
termination
  by (relation "measure (\<lambda>(upstream, attempt, w). FETCH_RETRIES + 1 - attempt)") auto

definition getAll :: "(nat \<Rightarrow> 'a list outcome) \<Rightarrow> net \<Rightarrow> 'a list \<times> net" where
  "getAll upstream w = getAll_loop upstream 1 w"

text \<open>The body of the single-item endpoint: a record, or a JSON primitive.\<close>

datatype 'p item = Primitive jsval | Record 'p

text \<open>\<open>getById(id)\<close>: one \<open>fetch\<close> of the products URL with the identifier appended, no
  timer and no retry; \<open>null\<close> on a status outside 2xx and from the \<open>catch\<close> block. Here
  the upstream gives the outcome of the call for each URL.\<close>

definition getById :: "(string \<Rightarrow> 'p item outcome) \<Rightarrow> string \<Rightarrow> 'p item" where
  "getById upstream ident =
     (case upstream (API_PRODUCTS @ ''/'' @ ident) of
        Response st body \<Rightarrow>
          if \<not> ok st then Primitive JNull
          else (case body of Some v \<Rightarrow> v | None \<Rightarrow> Primitive JNull)
      | _ \<Rightarrow> Primitive JNull)"

text \<open>The handler of \<open>GET /api/products/:id\<close>. A reply is its status and its JSON body:
  the product, or the object whose only field is \<open>error\<close> (with a fixed message).\<close>

datatype 'p reply_body = ProductJson "'p item" | ErrorJson

datatype 'p reply = Reply nat "'p reply_body"

fun truthy_item :: "'p item \<Rightarrow> bool" where
  "truthy_item (Record p) = True"
| "truthy_item (Primitive v) = truthy v"

definition product_route :: "(string \<Rightarrow> 'p item outcome) \<Rightarrow> string \<Rightarrow> 'p reply" where
  "product_route upstream ident =
     (let product = getById upstream ident
      in if \<not> truthy_item product then Reply 404 ErrorJson
         else Reply 200 (ProductJson product))"

text \<open>An attempt fails on a network error, on cancellation, on a status outside 2xx, and
  when the body of a 2xx response does not parse; otherwise it succeeds with the
  parsed payload.\<close>

definition failed :: "'a outcome \<Rightarrow> bool" where
  "failed out =
     (case out of
        NetworkError \<Rightarrow> True
      | Aborted \<Rightarrow> True
      | Response st body \<Rightarrow> \<not> ok st \<or> body = None)"

definition succeeded_with :: "'a outcome \<Rightarrow> 'a \<Rightarrow> bool" where
  "succeeded_with out payload =
     (case out of Response st body \<Rightarrow> ok st \<and> body = Some payload | _ \<Rightarrow> False)"

section \<open>Properties of the filter\<close>

subsection \<open>Filtering with a callback that may raise\<close>

lemma filter_js_pure: "filter_js (\<lambda>x. Inr (P x)) xs = Inr (filter P xs)"
  by (induction xs) simp_all

lemma filter_js_Inr_filter:
  "filter_js f xs = Inr ys \<Longrightarrow> ys = filter (\<lambda>x. f x = Inr True) xs"
  by (induction xs arbitrary: ys) (auto split: sum.splits if_splits)

lemma filter_js_keeps_all:
  "(\<And>z. z \<in> set zs \<Longrightarrow> f z = Inr True) \<Longrightarrow> filter_js f zs = Inr zs"
  by (induction zs) simp_all

lemma filter_js_stable:
  assumes "filter_js f xs = Inr ys" and "set zs \<subseteq> set ys"
  shows "filter_js f zs = Inr zs"
proof -
  have "ys = filter (\<lambda>x. f x = Inr True) xs"
    using assms(1) by (rule filter_js_Inr_filter)
  then have "\<And>z. z \<in> set zs \<Longrightarrow> f z = Inr True"
    using assms(2) by auto
  then show ?thesis by (rule filter_js_keeps_all)
qed

lemma filter_js_subseq: "filter_js f xs = Inr ys \<Longrightarrow> subseq ys xs"
  by (drule filter_js_Inr_filter) simp

lemma subseq_imp_subset: "subseq xs ys \<Longrightarrow> set xs \<subseteq> set ys"
  by (auto dest: list_emb_set)

subsection \<open>One block\<close>

lemma narrow_subseq: "narrow c xs = Inr ys \<Longrightarrow> subseq ys xs"
  by (auto simp: narrow_def split: sum.splits option.splits dest: filter_js_subseq)

lemma narrow_stable:
  "narrow c xs = Inr ys \<Longrightarrow> set zs \<subseteq> set ys \<Longrightarrow> narrow c zs = Inr zs"
  by (auto simp: narrow_def split: sum.splits option.splits intro: filter_js_stable)

lemma filterProducts_blocks:
  "filterProducts lower ps q = Inr r \<longleftrightarrow>
     (\<exists>r1 r2 r3. narrow (title_constraint lower q) ps = Inr r1 \<and>
        narrow (slug_constraint q) r1 = Inr r2 \<and>
        narrow (minPrice_constraint q) r2 = Inr r3 \<and>
        narrow (maxPrice_constraint q) r3 = Inr r)"
  by (auto simp: filterProducts_def split: sum.splits)

subsection \<open>Blank and unparseable query fields\<close>

lemma text_guard_blank: "absent_or_blank v \<Longrightarrow> text_guard v = Inr False"
  by (cases v) (simp_all add: absent_or_blank_def text_guard_def)

lemma trimStart_blank:
  assumes "trim s = []"
  shows "trimStart s = []"
proof (cases "dropWhile is_whitespace s")
  case Nil
  then show ?thesis by (simp add: trimStart_def)
next
  case (Cons c cs)
  then have "\<not> is_whitespace c"
    using hd_dropWhile [of is_whitespace s] by simp
  moreover have "\<forall>x\<in>set (dropWhile is_whitespace s). is_whitespace x"
    using assms by (simp add: trim_def)
  ultimately show ?thesis using Cons by simp
qed

lemma parseFloat_str_Nil: "trimStart s = [] \<Longrightarrow> parseFloat_str s = NaN"
  by (simp add: parseFloat_str_def str_decimal_literal_def)

lemma parseFloat_blank: "absent_or_blank v \<Longrightarrow> parseFloat v = NaN"
  by (cases v) (simp_all add: absent_or_blank_def parseFloat_str_Nil trimStart_blank)

lemma price_constraint_NaN:
  "isNaN (parseFloat (query_minPrice q)) \<Longrightarrow> minPrice_constraint q = Inr None"
  "isNaN (parseFloat (query_maxPrice q)) \<Longrightarrow> maxPrice_constraint q = Inr None"
  by (simp_all add: minPrice_constraint_def maxPrice_constraint_def)

lemma title_constraint_blank:
  "absent_or_blank (query_title q) \<Longrightarrow> title_constraint lower q = Inr None"
  by (simp add: title_constraint_def text_guard_blank)

lemma slug_constraint_blank:
  "absent_or_blank (query_slug q) \<Longrightarrow> slug_constraint q = Inr None"
  by (simp add: slug_constraint_def text_guard_blank)

subsection \<open>No constraint, no change\<close>

lemma filterProducts_blank:
  assumes "absent_or_blank (query_title q)" and "absent_or_blank (query_slug q)"
    and "absent_or_blank (query_minPrice q)" and "absent_or_blank (query_maxPrice q)"
  shows "filterProducts lower ps q = Inr ps"
  using assms
  by (simp add: filterProducts_def narrow_def title_constraint_blank slug_constraint_blank
      price_constraint_NaN parseFloat_blank isNaN_def)

text \<open>
  C3. For every product list, \<open>filterProducts\<close> with a query in which each of
  \<open>title\<close>, \<open>slug\<close>, \<open>minPrice\<close> and \<open>maxPrice\<close> is absent or blank returns the input
  list itself: the same records in the same order.
\<close>

theorem filterProducts_no_constraint:
  assumes "absent_or_blank (query_title q)" and "absent_or_blank (query_slug q)"
    and "absent_or_blank (query_minPrice q)" and "absent_or_blank (query_maxPrice q)"
  shows "filterProducts lower ps q = Inr ps"
  using assms by (rule filterProducts_blank)

theorem filterProducts_no_constraint_witness:
  "filterProducts lower_ascii [shoe, hat]
     \<lparr>query_title = JStr (ascii ''  ''), query_slug = JUndefined,
      query_minPrice = JStr [], query_maxPrice = JStr (ascii '' '')\<rparr> = Inr [shoe, hat]"
proof -
  have b: "absent_or_blank (JStr (ascii ''  ''))" "absent_or_blank JUndefined"
    "absent_or_blank (JStr [])" "absent_or_blank (JStr (ascii '' ''))"
    by code_simp+
  show ?thesis
    by (rule filterProducts_no_constraint) (simp_all add: b)
qed

subsection \<open>Idempotence\<close>

lemma filterProducts_fixed:
  assumes "filterProducts lower ps q = Inr r"
  shows "filterProducts lower r q = Inr r"
proof -
  from assms obtain r1 r2 r3 where p: "narrow (title_constraint lower q) ps = Inr r1"
      "narrow (slug_constraint q) r1 = Inr r2"
      "narrow (minPrice_constraint q) r2 = Inr r3"
      "narrow (maxPrice_constraint q) r3 = Inr r"
    unfolding filterProducts_blocks by blast
  have s3: "set r \<subseteq> set r3"
    using p(4) by (intro subseq_imp_subset narrow_subseq)
  have s2: "set r3 \<subseteq> set r2"
    using p(3) by (intro subseq_imp_subset narrow_subseq)
  have s1: "set r2 \<subseteq> set r1"
    using p(2) by (intro subseq_imp_subset narrow_subseq)
  have "narrow (title_constraint lower q) r = Inr r"
    using p(1) s1 s2 s3 by (intro narrow_stable [of _ ps r1]) auto
  moreover have "narrow (slug_constraint q) r = Inr r"
    using p(2) s2 s3 by (intro narrow_stable [of _ r1 r2]) auto
  moreover have "narrow (minPrice_constraint q) r = Inr r"
    using p(3) s3 by (intro narrow_stable [of _ r2 r3]) auto
  moreover have "narrow (maxPrice_constraint q) r = Inr r"
    using p(4) by (intro narrow_stable [of _ r3 r]) auto
  ultimately show ?thesis
    unfolding filterProducts_blocks by blast
qed

text \<open>
  C4. \<open>filterProducts\<close> is idempotent: for every product list \<open>l\<close> and every query \<open>q\<close>,
  filtering the result of \<open>filterProducts l q\<close> again with \<open>q\<close> gives the same result.
  Where the first call raises, so does the composition, with the same exception.
\<close>

theorem filterProducts_idempotent:
  "(case filterProducts lower l q of Inl e \<Rightarrow> Inl e | Inr r \<Rightarrow> filterProducts lower r q)
     = filterProducts lower l q"
  by (cases "filterProducts lower l q") (simp_all add: filterProducts_fixed)

subsection \<open>The result is a subsequence of the input\<close>

lemma filterProducts_subseq: "filterProducts lower ps q = Inr r \<Longrightarrow> subseq r ps"
proof -
  assume "filterProducts lower ps q = Inr r"
  then obtain r1 r2 r3 where p: "narrow (title_constraint lower q) ps = Inr r1"
      "narrow (slug_constraint q) r1 = Inr r2"
      "narrow (minPrice_constraint q) r2 = Inr r3"
      "narrow (maxPrice_constraint q) r3 = Inr r"
    unfolding filterProducts_blocks by blast
  have "subseq r r3" using p(4) by (rule narrow_subseq)
  also have "subseq r3 r2" using p(3) by (rule narrow_subseq)
  also have "subseq r2 r1" using p(2) by (rule narrow_subseq)
  also have "subseq r1 ps" using p(1) by (rule narrow_subseq)
  finally show ?thesis .
qed

text \<open>
  C10. For every product list and every query, active, partial or malformed, a list
  that \<open>filterProducts\<close> returns is a subsequence of the input: each record of the
  output is a record of the input, none is duplicated, and the records keep their
  relative order.
\<close>

theorem filterProducts_subsequence:
  "filterProducts lower ps q = Inr r \<Longrightarrow> subseq r ps"
  by (rule filterProducts_subseq)

theorem filterProducts_subsequence_witness:
  "filterProducts lower_ascii [shoe, hat, shoe] (no_query\<lparr>query_slug := JStr (ascii ''shoe-1'')\<rparr>)
     = Inr [shoe, shoe]
   \<and> subseq [shoe, shoe] [shoe, hat, shoe]"
proof -
  have e: "filterProducts lower_ascii [shoe, hat, shoe] (no_query\<lparr>query_slug := JStr (ascii ''shoe-1'')\<rparr>)
             = Inr [shoe, shoe]"
    by code_simp
  from filterProducts_subsequence [OF e] e show ?thesis by simp
qed

subsection \<open>Fields that leave a block out\<close>

lemma constraints_drop_minPrice:
  "title_constraint lower (q\<lparr>query_minPrice := v\<rparr>) = title_constraint lower q"
  "slug_constraint (q\<lparr>query_minPrice := v\<rparr>) = slug_constraint q"
  "maxPrice_constraint (q\<lparr>query_minPrice := v\<rparr>) = maxPrice_constraint q"
  by (simp_all add: title_constraint_def slug_constraint_def maxPrice_constraint_def
      cong: sum.case_cong if_cong)

lemma constraints_drop_maxPrice:
  "title_constraint lower (q\<lparr>query_maxPrice := v\<rparr>) = title_constraint lower q"
  "slug_constraint (q\<lparr>query_maxPrice := v\<rparr>) = slug_constraint q"
  "minPrice_constraint (q\<lparr>query_maxPrice := v\<rparr>) = minPrice_constraint q"
  by (simp_all add: title_constraint_def slug_constraint_def minPrice_constraint_def
      cong: sum.case_cong if_cong)

lemma constraints_drop_title:
  "slug_constraint (q\<lparr>query_title := v\<rparr>) = slug_constraint q"
  "minPrice_constraint (q\<lparr>query_title := v\<rparr>) = minPrice_constraint q"
  "maxPrice_constraint (q\<lparr>query_title := v\<rparr>) = maxPrice_constraint q"
  by (simp_all add: slug_constraint_def minPrice_constraint_def maxPrice_constraint_def
      cong: sum.case_cong if_cong)

lemma price_constraint_absent:
  "minPrice_constraint (q\<lparr>query_minPrice := JUndefined\<rparr>) = Inr None"
  "maxPrice_constraint (q\<lparr>query_maxPrice := JUndefined\<rparr>) = Inr None"
  by (simp_all add: minPrice_constraint_def maxPrice_constraint_def price_guard_def nullish_def)

lemma title_constraint_absent:
  "title_constraint lower (q\<lparr>query_title := JUndefined\<rparr>) = Inr None"
  by (simp add: title_constraint_def text_guard_def)


subsection \<open>Which strings parse as a number\<close>









subsection \<open>Price bounds\<close>

lemma price_guard_parses: "\<not> isNaN (parseFloat v) \<Longrightarrow> price_guard v"
  by (cases v) (auto simp: price_guard_def nullish_def strict_eq_def isNaN_def
      parseFloat_str_Nil trimStart_def)

lemma price_constraint_bound:
  "minPrice_constraint q =
     (case bound_of (query_minPrice q) of None \<Rightarrow> Inr None
      | Some m \<Rightarrow> Inr (Some (price_at_least m)))"
  "maxPrice_constraint q =
     (case bound_of (query_maxPrice q) of None \<Rightarrow> Inr None
      | Some m \<Rightarrow> Inr (Some (price_at_most m)))"
  by (auto simp: minPrice_constraint_def maxPrice_constraint_def bound_of_def Let_def
      price_guard_parses)

lemma num_ge_le: "num_ge a b = num_le b a"
  by (auto simp: num_ge_def num_le_def)

lemma price_callbacks:
  "price_at_least m p = Inr (num_le m (price_number p))"
  "price_at_most m p = Inr (num_le (price_number p) m)"
  by (cases "price p"; simp add: price_at_least_def price_at_most_def price_number_def
      js_ge_def js_le_def coalesce_def nullish_def num_ge_le)+

lemma narrow_price:
  "narrow (minPrice_constraint q) xs =
     Inr (filter (\<lambda>p. within_bounds (bound_of (query_minPrice q)) None (price_number p)) xs)"
  "narrow (maxPrice_constraint q) xs =
     Inr (filter (\<lambda>p. within_bounds None (bound_of (query_maxPrice q)) (price_number p)) xs)"
  by (simp_all add: price_constraint_bound narrow_def within_bounds_def price_callbacks [abs_def]
      filter_js_pure split: option.splits)

lemma within_bounds_both:
  "(within_bounds lo None x \<and> within_bounds None hi x) = within_bounds lo hi x"
  by (auto simp: within_bounds_def)

lemma filterProducts_price_general:
  "filterProducts lower ps q =
     (case filterProducts lower ps (q\<lparr>query_minPrice := JUndefined, query_maxPrice := JUndefined\<rparr>) of
        Inl e \<Rightarrow> Inl e
      | Inr r \<Rightarrow> Inr (filter (\<lambda>p. within_bounds (bound_of (query_minPrice q))
                               (bound_of (query_maxPrice q)) (price_number p)) r))"
proof -
  let ?q = "q\<lparr>query_minPrice := JUndefined, query_maxPrice := JUndefined\<rparr>"
  note c = constraints_drop_minPrice constraints_drop_maxPrice price_constraint_absent
  show ?thesis
  proof (cases "narrow (title_constraint lower q) ps")
    case (Inl e)
    then show ?thesis by (simp add: filterProducts_def c)
  next
    case r1: (Inr r1)
    show ?thesis
    proof (cases "narrow (slug_constraint q) r1")
      case (Inl e)
      then show ?thesis by (simp add: filterProducts_def c r1)
    next
      case r2: (Inr r2)
      have "filterProducts lower ps q =
          Inr (filter (\<lambda>p. within_bounds (bound_of (query_minPrice q))
                                  (bound_of (query_maxPrice q)) (price_number p)) r2)"
        by (simp add: filterProducts_def r1 r2 narrow_price within_bounds_both)
      moreover have "filterProducts lower ps ?q = Inr r2"
        by (simp add: filterProducts_def c r1 r2 narrow_def [of "Inr None"])
      ultimately show ?thesis by simp
    qed
  qed
qed

subsection \<open>Unparseable price bounds\<close>








text \<open>
  C2. For every product list, \<open>filterProducts\<close> applies \<open>minPrice\<close> and \<open>maxPrice\<close> as
  inclusive numeric bounds on each record's price, a missing price counting as 0: the
  result is the result without the two price fields, narrowed to the records whose
  price lies within the bounds. In particular, for the records Shoe (price 10) and Hat
  (price 50) and \<open>minPrice\<close> 20, given as a number or as a string, the result is the list
  of the Hat record alone.
\<close>

theorem filterProducts_price_bounds:
  "filterProducts lower ps q =
     (case filterProducts lower ps
             (q\<lparr>query_minPrice := JUndefined, query_maxPrice := JUndefined\<rparr>) of
        Inl e \<Rightarrow> Inl e
      | Inr r \<Rightarrow>
          Inr (filter (\<lambda>p. within_bounds (bound_of (query_minPrice q))
                             (bound_of (query_maxPrice q)) (price_number p)) r))
   \<and> filterProducts lower [shoe, hat] (no_query\<lparr>query_minPrice := JNum (Fin 20)\<rparr>) = Inr [hat]
   \<and> filterProducts lower [shoe, hat] (no_query\<lparr>query_minPrice := JStr (ascii ''20'')\<rparr>) = Inr [hat]"
proof (intro conjI)
  show "filterProducts lower [shoe, hat] (no_query\<lparr>query_minPrice := JNum (Fin 20)\<rparr>) = Inr [hat]"
    by code_simp
  show "filterProducts lower [shoe, hat] (no_query\<lparr>query_minPrice := JStr (ascii ''20'')\<rparr>) = Inr [hat]"
    by code_simp
qed (rule filterProducts_price_general)

theorem filterProducts_price_bounds_witness:
  "bound_of (JStr (ascii ''-5'')) = Some (Fin (- 5)) \<and> bound_of (JStr (ascii ''30.0'')) = Some (Fin 30)
   \<and> price_number shoe = Fin 10 \<and> price_number hat = Fin 50
   \<and> price_number (shoe\<lparr>price := JNull\<rparr>) = Fin 0
   \<and> price_number (hat\<lparr>price := JStr (ascii ''30'')\<rparr>) = Fin 30
   \<and> filterProducts lower_ascii [shoe, hat, shoe\<lparr>price := JNull\<rparr>, hat\<lparr>price := JStr (ascii ''30'')\<rparr>]
        (no_query\<lparr>query_title := JStr (ascii ''h''), query_minPrice := JStr (ascii ''-5''),
                   query_maxPrice := JStr (ascii ''30.0'')\<rparr>)
      = Inr [shoe, shoe\<lparr>price := JNull\<rparr>, hat\<lparr>price := JStr (ascii ''30'')\<rparr>]
   \<and> filterProducts lower_ascii [shoe, hat, shoe\<lparr>price := JNull\<rparr>, hat\<lparr>price := JStr (ascii ''30'')\<rparr>]
        (no_query\<lparr>query_title := JStr (ascii ''h'')\<rparr>)
      = Inr [shoe, hat, shoe\<lparr>price := JNull\<rparr>, hat\<lparr>price := JStr (ascii ''30'')\<rparr>]
   \<and> bound_of (JStr (ascii ''1e-400'')) = Some (Fin 0)
   \<and> bound_of (JStr (ascii ''0.1'')) = Some (Fin (3602879701896397 / 36028797018963968))
   \<and> filterProducts lower_ascii
        [shoe\<lparr>price := JNum (Fin 0)\<rparr>,
         hat\<lparr>price := JNum (Fin (3602879701896397 / 36028797018963968))\<rparr>, hat]
        (no_query\<lparr>query_minPrice := JStr (ascii ''1e-400''),
                   query_maxPrice := JStr (ascii ''0.1'')\<rparr>)
      = Inr [shoe\<lparr>price := JNum (Fin 0)\<rparr>,
             hat\<lparr>price := JNum (Fin (3602879701896397 / 36028797018963968))\<rparr>]"
proof -
  let ?ps = "[shoe, hat, shoe\<lparr>price := JNull\<rparr>, hat\<lparr>price := JStr (ascii ''30'')\<rparr>]"
  let ?q = "no_query\<lparr>query_title := JStr (ascii ''h''), query_minPrice := JStr (ascii ''-5''),
                   query_maxPrice := JStr (ascii ''30.0'')\<rparr>"
  let ?tenth = "Fin (3602879701896397 / 36028797018963968)"
  let ?ps' = "[shoe\<lparr>price := JNum (Fin 0)\<rparr>, hat\<lparr>price := JNum ?tenth\<rparr>, hat]"
  let ?q' = "no_query\<lparr>query_minPrice := JStr (ascii ''1e-400''),
                   query_maxPrice := JStr (ascii ''0.1'')\<rparr>"
  have b: "bound_of (JStr (ascii ''-5'')) = Some (Fin (- 5))" "bound_of (JStr (ascii ''30.0'')) = Some (Fin 30)"
    by code_simp+
  have n: "price_number shoe = Fin 10" "price_number hat = Fin 50"
    "price_number (shoe\<lparr>price := JNull\<rparr>) = Fin 0"
    "price_number (hat\<lparr>price := JStr (ascii ''30'')\<rparr>) = Fin 30"
    by code_simp+
  have r: "filterProducts lower_ascii ?ps (no_query\<lparr>query_title := JStr (ascii ''h'')\<rparr>) = Inr ?ps"
    by code_simp
  have b': "bound_of (JStr (ascii ''1e-400'')) = Some (Fin 0)"
    "bound_of (JStr (ascii ''0.1'')) = Some ?tenth"
    by code_simp+
  have r': "filterProducts lower_ascii ?ps' no_query = Inr ?ps'"
    by (rule filterProducts_blank) (simp_all add: no_query_def absent_or_blank_def)
  have n': "price_number (shoe\<lparr>price := JNum (Fin 0)\<rparr>) = Fin 0"
    "price_number (hat\<lparr>price := JNum ?tenth\<rparr>) = ?tenth"
    by (simp_all add: price_number_def)
  have first: "filterProducts lower_ascii ?ps ?q
      = Inr [shoe, shoe\<lparr>price := JNull\<rparr>, hat\<lparr>price := JStr (ascii ''30'')\<rparr>]"
    using filterProducts_price_bounds [of lower_ascii ?ps ?q] b n r
    by (simp add: no_query_def within_bounds_def num_le_def)
  have second: "filterProducts lower_ascii ?ps' ?q'
      = Inr [shoe\<lparr>price := JNum (Fin 0)\<rparr>, hat\<lparr>price := JNum ?tenth\<rparr>]"
    using filterProducts_price_bounds [of lower_ascii ?ps' ?q'] b' n n' r'
    by (simp add: no_query_def within_bounds_def num_le_def)
  from b n r b' first second show ?thesis
    by simp
qed

subsection \<open>The title block\<close>

lemma filter_js_cong:
  "(\<And>x. x \<in> set xs \<Longrightarrow> f x = g x) \<Longrightarrow> filter_js f xs = filter_js g xs"
  by (induction xs) (auto split: sum.splits)

lemma str_includes_sublist: "str_includes s t = sublist t s"
  by (induction s) (simp_all add: sublist_Cons_right)

lemma title_includes_text:
  assumes "text_or_absent (title p)"
  shows "title_includes lower t p = Inr (sublist t (lower (title_text p)))"
  using assms
  by (cases "title p")
     (simp_all add: text_or_absent_def title_includes_def or_else_def title_text_def
       str_includes_sublist)

lemma title_constraint_text:
  "query_title q = JStr s \<Longrightarrow> trim s \<noteq> [] \<Longrightarrow>
     title_constraint lower q = Inr (Some (title_includes lower (lower (trim s))))"
  by (auto simp: title_constraint_def text_guard_def trim_def)

lemma narrow_title:
  assumes "query_title q = JStr s" and "trim s \<noteq> []"
    and "\<forall>p\<in>set ps. text_or_absent (title p)"
  shows "narrow (title_constraint lower q) ps =
           Inr (filter (\<lambda>p. contains_ci lower (title_text p) (trim s)) ps)"
proof -
  have "narrow (title_constraint lower q) ps =
      filter_js (title_includes lower (lower (trim s))) ps"
    by (simp add: narrow_def title_constraint_text [OF assms(1,2)])
  also have "\<dots> = Inr (filter (\<lambda>p. contains_ci lower (title_text p) (trim s)) ps)"
    using assms(3)
    by (subst filter_js_cong [where g = "\<lambda>p. Inr (contains_ci lower (title_text p) (trim s))"])
       (simp_all add: title_includes_text contains_ci_def filter_js_pure)
  finally show ?thesis .
qed

subsection \<open>The blocks after the title block\<close>

lemma slug_block:
  "(\<exists>e. \<forall>xs :: 'a product_scheme list. narrow (slug_constraint q) xs = Inl e) \<or>
   (\<exists>P. \<forall>xs :: 'a product_scheme list. narrow (slug_constraint q) xs = Inr (filter P xs))"
proof (cases "slug_constraint q :: error + ('a product_scheme \<Rightarrow> error + bool) option")
  case (Inl e)
  then have "\<forall>xs :: 'a product_scheme list. narrow (slug_constraint q) xs = Inl e"
    by (simp add: narrow_def)
  then show ?thesis by blast
next
  case (Inr c)
  show ?thesis
  proof (cases c)
    case None
    with Inr have "\<forall>xs :: 'a product_scheme list.
        narrow (slug_constraint q) xs = Inr (filter (\<lambda>p. True) xs)"
      by (simp add: narrow_def)
    then show ?thesis by blast
  next
    case (Some f)
    with Inr obtain v where "f = slug_equals v"
      by (auto simp: slug_constraint_def split: sum.splits if_splits)
    with Inr Some have "\<forall>xs :: 'a product_scheme list. narrow (slug_constraint q) xs =
        Inr (filter (\<lambda>p. strict_eq (or_else (slug p) (JStr [])) (JStr v)) xs)"
      by (simp add: narrow_def filter_js_pure [symmetric] slug_equals_def [abs_def])
    then show ?thesis by blast
  qed
qed

lemma minPrice_block:
  "\<exists>P. \<forall>xs. narrow (minPrice_constraint q) xs = Inr (filter P xs)"
proof (cases "bound_of (query_minPrice q)")
  case None
  then have "\<forall>xs. narrow (minPrice_constraint q) xs = Inr (filter (\<lambda>p. True) xs)"
    by (simp add: narrow_def price_constraint_bound)
  then show ?thesis by blast
next
  case (Some m)
  then have "\<forall>xs. narrow (minPrice_constraint q) xs =
      Inr (filter (\<lambda>p. js_ge (coalesce (price p) (JNum (Fin 0))) m) xs)"
    by (simp add: narrow_def price_constraint_bound filter_js_pure [symmetric]
        price_at_least_def [abs_def])
  then show ?thesis by blast
qed

lemma maxPrice_block:
  "\<exists>P. \<forall>xs. narrow (maxPrice_constraint q) xs = Inr (filter P xs)"
proof (cases "bound_of (query_maxPrice q)")
  case None
  then have "\<forall>xs. narrow (maxPrice_constraint q) xs = Inr (filter (\<lambda>p. True) xs)"
    by (simp add: narrow_def price_constraint_bound)
  then show ?thesis by blast
next
  case (Some m)
  then have "\<forall>xs. narrow (maxPrice_constraint q) xs =
      Inr (filter (\<lambda>p. js_le (coalesce (price p) (JNum (Fin 0))) m) xs)"
    by (simp add: narrow_def price_constraint_bound filter_js_pure [symmetric]
        price_at_most_def [abs_def])
  then show ?thesis by blast
qed

lemma later_blocks:
  "(\<exists>e. \<forall>xs :: 'a product_scheme list. narrow (slug_constraint q) xs = Inl e) \<or>
   (\<exists>P. \<forall>xs :: 'a product_scheme list.
      (case narrow (slug_constraint q) xs of
         Inl e \<Rightarrow> Inl e
       | Inr r2 \<Rightarrow>
           (case narrow (minPrice_constraint q) r2 of
              Inl e \<Rightarrow> Inl e
            | Inr r3 \<Rightarrow> narrow (maxPrice_constraint q) r3)) = Inr (filter P xs))"
proof -
  obtain P2 where p2: "\<forall>xs :: 'a product_scheme list.
      narrow (minPrice_constraint q) xs = Inr (filter P2 xs)"
    using minPrice_block by blast
  obtain P3 where p3: "\<forall>xs :: 'a product_scheme list.
      narrow (maxPrice_constraint q) xs = Inr (filter P3 xs)"
    using maxPrice_block by blast
  from slug_block [of q] show ?thesis
  proof
    assume "\<exists>e. \<forall>xs :: 'a product_scheme list. narrow (slug_constraint q) xs = Inl e"
    then show ?thesis by blast
  next
    assume "\<exists>P. \<forall>xs :: 'a product_scheme list.
      narrow (slug_constraint q) xs = Inr (filter P xs)"
    then obtain P1 where p1: "\<forall>xs :: 'a product_scheme list.
        narrow (slug_constraint q) xs = Inr (filter P1 xs)"
      by blast
    have "\<forall>xs :: 'a product_scheme list. (case narrow (slug_constraint q) xs of
         Inl e \<Rightarrow> Inl e
       | Inr r2 \<Rightarrow>
           (case narrow (minPrice_constraint q) r2 of
              Inl e \<Rightarrow> Inl e
            | Inr r3 \<Rightarrow> narrow (maxPrice_constraint q) r3))
        = Inr (filter (\<lambda>p. P1 p \<and> P2 p \<and> P3 p) xs)"
      by (auto simp: p1 p2 p3 intro: filter_cong)
    then show ?thesis by blast
  qed
qed


subsection \<open>The title constraint\<close>

lemma filterProducts_title_general:
  assumes "query_title q = JStr s" and "trim s \<noteq> []"
    and "\<forall>p\<in>set ps. text_or_absent (title p)"
  shows "filterProducts lower ps q =
        (case filterProducts lower ps (q\<lparr>query_title := JUndefined\<rparr>) of
           Inl e \<Rightarrow> Inl e
         | Inr r \<Rightarrow> Inr (filter (\<lambda>p. contains_ci lower (title_text p) (trim s)) r))"
proof -
  note t = narrow_title [OF assms]
  have rhs: "filterProducts lower ps (q\<lparr>query_title := JUndefined\<rparr>) =
      (case narrow (slug_constraint q) ps of
         Inl e \<Rightarrow> Inl e
       | Inr r2 \<Rightarrow>
           (case narrow (minPrice_constraint q) r2 of
              Inl e \<Rightarrow> Inl e
            | Inr r3 \<Rightarrow> narrow (maxPrice_constraint q) r3))"
    by (simp add: filterProducts_def constraints_drop_title title_constraint_absent
        narrow_def [of "Inr None"] cong: sum.case_cong)
  have lhs: "filterProducts lower ps q =
      (case narrow (slug_constraint q)
              (filter (\<lambda>p. contains_ci lower (title_text p) (trim s)) ps) of
         Inl e \<Rightarrow> Inl e
       | Inr r2 \<Rightarrow>
           (case narrow (minPrice_constraint q) r2 of
              Inl e \<Rightarrow> Inl e
            | Inr r3 \<Rightarrow> narrow (maxPrice_constraint q) r3))"
    by (simp add: filterProducts_def t)
  from later_blocks [of q, where 'a = 'a] show ?thesis
  proof
    assume "\<exists>e. \<forall>xs :: 'a product_scheme list. narrow (slug_constraint q) xs = Inl e"
    then obtain e where "\<forall>xs :: 'a product_scheme list. narrow (slug_constraint q) xs = Inl e"
      by blast
    then show ?thesis
      by (simp add: lhs rhs)
  next
    assume "\<exists>P. \<forall>xs :: 'a product_scheme list.
      (case narrow (slug_constraint q) xs of
         Inl e \<Rightarrow> Inl e
       | Inr r2 \<Rightarrow>
           (case narrow (minPrice_constraint q) r2 of
              Inl e \<Rightarrow> Inl e
            | Inr r3 \<Rightarrow> narrow (maxPrice_constraint q) r3)) = Inr (filter P xs)"
    then obtain P where "\<forall>xs :: 'a product_scheme list.
      (case narrow (slug_constraint q) xs of
         Inl e \<Rightarrow> Inl e
       | Inr r2 \<Rightarrow>
           (case narrow (minPrice_constraint q) r2 of
              Inl e \<Rightarrow> Inl e
            | Inr r3 \<Rightarrow> narrow (maxPrice_constraint q) r3)) = Inr (filter P xs)"
      by blast
    then show ?thesis
      by (auto simp: lhs rhs intro: filter_cong)
  qed
qed

lemma filterProducts_title_blank:
  assumes "query_title q = JStr s" and "trim s = []"
  shows "filterProducts lower ps q = filterProducts lower ps (q\<lparr>query_title := JUndefined\<rparr>)"
proof -
  from assms have "absent_or_blank (query_title q)"
    by (simp add: absent_or_blank_def)
  then show ?thesis
    by (simp add: filterProducts_def title_constraint_blank title_constraint_absent
        constraints_drop_title cong: sum.case_cong)
qed

lemma trim_SHO: "trim (ascii ''SHO'') = ascii ''SHO''" "trim (ascii ''SHO'') \<noteq> []"
  by code_simp+

lemma sho_in_shoe:
  "sublist (ascii ''sho'') (ascii ''shoe'')" "\<not> sublist (ascii ''sho'') (ascii ''hat'')"
  by code_simp+

lemma filterProducts_SHO:
  assumes "lower (ascii ''SHO'') = ascii ''sho''" and "lower (ascii ''Shoe'') = ascii ''shoe''"
    and "lower (ascii ''Hat'') = ascii ''hat''"
  shows "contains_ci lower (title_text shoe) (ascii ''SHO'')"
    and "filterProducts lower [shoe, hat] (no_query\<lparr>query_title := JStr (ascii ''SHO'')\<rparr>)
           = Inr [shoe]"
proof -
  have m: "contains_ci lower (title_text shoe) (ascii ''SHO'')"
    "\<not> contains_ci lower (title_text hat) (ascii ''SHO'')"
    by (simp_all add: contains_ci_def title_text_def shoe_def hat_def assms sho_in_shoe)
  then show "contains_ci lower (title_text shoe) (ascii ''SHO'')"
    by simp
  have t: "\<forall>p\<in>set [shoe, hat]. text_or_absent (title p)"
    by (simp add: text_or_absent_def shoe_def hat_def)
  have n: "filterProducts lower [shoe, hat]
      (no_query\<lparr>query_title := JStr (ascii ''SHO''), query_title := JUndefined\<rparr>)
      = Inr [shoe, hat]"
    by (rule filterProducts_blank) (simp_all add: no_query_def absent_or_blank_def)
  have "filterProducts lower [shoe, hat] (no_query\<lparr>query_title := JStr (ascii ''SHO'')\<rparr>) =
      Inr (filter (\<lambda>p. contains_ci lower (title_text p) (trim (ascii ''SHO''))) [shoe, hat])"
    using filterProducts_title_general [OF _ trim_SHO(2) t,
        of "no_query\<lparr>query_title := JStr (ascii ''SHO'')\<rparr>" lower] n
    by simp
  then show "filterProducts lower [shoe, hat] (no_query\<lparr>query_title := JStr (ascii ''SHO'')\<rparr>)
           = Inr [shoe]"
    by (simp add: trim_SHO m)
qed

text \<open>
  C5, as amended. For every product list whose titles are text or absent, a title
  constraint that is not blank keeps exactly the records whose title, lower-cased by
  \<open>toLowerCase\<close>, contains the constraint value, trimmed of the white space around it
  and lower-cased by \<open>toLowerCase\<close>, an absent title counting as the empty string: the
  result is the result without the title field, narrowed to those records. A blank
  title constraint keeps every record. In particular, \<open>toLowerCase\<close> taking \<open>SHO\<close>,
  \<open>Shoe\<close> and \<open>Hat\<close> to \<open>sho\<close>, \<open>shoe\<close> and \<open>hat\<close>, the constraint \<open>SHO\<close> matches the
  record whose title is \<open>Shoe\<close>.
\<close>

theorem filterProducts_title:
  "(query_title q = JStr s \<and> trim s \<noteq> [] \<and> (\<forall>p\<in>set ps. text_or_absent (title p)) \<longrightarrow>
      filterProducts lower ps q =
        (case filterProducts lower ps (q\<lparr>query_title := JUndefined\<rparr>) of
           Inl e \<Rightarrow> Inl e
         | Inr r \<Rightarrow> Inr (filter (\<lambda>p. contains_ci lower (title_text p) (trim s)) r)))
   \<and> (query_title q = JStr s \<and> trim s = [] \<longrightarrow>
      filterProducts lower ps q = filterProducts lower ps (q\<lparr>query_title := JUndefined\<rparr>))
   \<and> (lower (ascii ''SHO'') = ascii ''sho'' \<and> lower (ascii ''Shoe'') = ascii ''shoe''
        \<and> lower (ascii ''Hat'') = ascii ''hat'' \<longrightarrow>
      contains_ci lower (title_text shoe) (ascii ''SHO'')
      \<and> filterProducts lower [shoe, hat] (no_query\<lparr>query_title := JStr (ascii ''SHO'')\<rparr>)
          = Inr [shoe])"
proof (intro conjI impI)
  assume "query_title q = JStr s \<and> trim s \<noteq> [] \<and> (\<forall>p\<in>set ps. text_or_absent (title p))"
  then show "filterProducts lower ps q =
        (case filterProducts lower ps (q\<lparr>query_title := JUndefined\<rparr>) of
           Inl e \<Rightarrow> Inl e
         | Inr r \<Rightarrow> Inr (filter (\<lambda>p. contains_ci lower (title_text p) (trim s)) r))"
    by (intro filterProducts_title_general) simp_all
next
  assume "query_title q = JStr s \<and> trim s = []"
  then show "filterProducts lower ps q
      = filterProducts lower ps (q\<lparr>query_title := JUndefined\<rparr>)"
    by (intro filterProducts_title_blank [where s = s]) simp_all
next
  assume a: "lower (ascii ''SHO'') = ascii ''sho'' \<and> lower (ascii ''Shoe'') = ascii ''shoe''
        \<and> lower (ascii ''Hat'') = ascii ''hat''"
  then show "contains_ci lower (title_text shoe) (ascii ''SHO'')"
    by (intro filterProducts_SHO(1)) simp_all
  from a show "filterProducts lower [shoe, hat] (no_query\<lparr>query_title := JStr (ascii ''SHO'')\<rparr>)
          = Inr [shoe]"
    by (intro filterProducts_SHO(2)) simp_all
qed

theorem filterProducts_title_witness:
  "trim (ascii '' Ha '') = ascii ''Ha''
   \<and> text_or_absent (title shoe) \<and> text_or_absent (title hat)
   \<and> text_or_absent (title (hat\<lparr>title := JNull\<rparr>))
   \<and> filterProducts lower_ascii [shoe, hat, hat\<lparr>title := JNull\<rparr>]
        (no_query\<lparr>query_title := JStr (ascii '' Ha ''), query_maxPrice := JStr (ascii ''50'')\<rparr>)
      = Inr [hat]
   \<and> filterProducts lower_ascii [shoe, hat, hat\<lparr>title := JNull\<rparr>]
        (no_query\<lparr>query_title := JUndefined, query_maxPrice := JStr (ascii ''50'')\<rparr>)
      = Inr [shoe, hat, hat\<lparr>title := JNull\<rparr>]
   \<and> filter (\<lambda>p. contains_ci lower_ascii (title_text p) (ascii ''Ha''))
        [shoe, hat, hat\<lparr>title := JNull\<rparr>]
      = [hat]
   \<and> trim (ascii ''  '') = []
   \<and> filterProducts lower_ascii [shoe, hat] (no_query\<lparr>query_title := JStr (ascii ''  '')\<rparr>)
      = filterProducts lower_ascii [shoe, hat] (no_query\<lparr>query_title := JUndefined\<rparr>)
   \<and> lower_ascii (ascii ''SHO'') = ascii ''sho'' \<and> lower_ascii (ascii ''Shoe'') = ascii ''shoe''
   \<and> lower_ascii (ascii ''Hat'') = ascii ''hat''
   \<and> filterProducts lower_ascii [shoe, hat] (no_query\<lparr>query_title := JStr (ascii ''SHO'')\<rparr>)
      = Inr [shoe]"
proof -
  let ?ps = "[shoe, hat, hat\<lparr>title := JNull\<rparr>]"
  let ?q = "no_query\<lparr>query_title := JStr (ascii '' Ha ''),
                      query_maxPrice := JStr (ascii ''50'')\<rparr>"
  have t: "trim (ascii '' Ha '') = ascii ''Ha''" "trim (ascii '' Ha '') \<noteq> []"
    "trim (ascii ''  '') = []"
    by code_simp+
  have h: "\<forall>p\<in>set ?ps. text_or_absent (title p)"
    by (simp add: text_or_absent_def shoe_def hat_def)
  have r: "filterProducts lower_ascii ?ps
      (no_query\<lparr>query_title := JUndefined, query_maxPrice := JStr (ascii ''50'')\<rparr>) = Inr ?ps"
    by code_simp
  have f: "filter (\<lambda>p. contains_ci lower_ascii (title_text p) (ascii ''Ha'')) ?ps = [hat]"
    by code_simp
  have l: "lower_ascii (ascii ''SHO'') = ascii ''sho''"
    "lower_ascii (ascii ''Shoe'') = ascii ''shoe''" "lower_ascii (ascii ''Hat'') = ascii ''hat''"
    by code_simp+
  from filterProducts_title [of ?q "ascii '' Ha ''" ?ps lower_ascii]
    filterProducts_title [of "no_query\<lparr>query_title := JStr (ascii ''  '')\<rparr>" "ascii ''  ''"
      "[shoe, hat]" lower_ascii]
    t h r f l
  show ?thesis
    by (simp add: no_query_def)
qed

text \<open>
  C5 as stated fails in two ways. Where the constraint value has white space around
  it, the filter trims the value first: \<open>sho\<close> followed by a space keeps the record
  titled \<open>Shoe\<close>, whose title does not contain that value. And where a record's title is
  a value other than text that counts as true, such as a number, the call keeps no
  record at all: it raises.
\<close>

theorem filterProducts_title_counterexample:
  "filterProducts lower_ascii [shoe] (no_query\<lparr>query_title := JStr (ascii ''sho '')\<rparr>)
     = Inr [shoe]
   \<and> \<not> contains_ci lower_ascii (title_text shoe) (ascii ''sho '')
   \<and> filterProducts lower_ascii [shoe\<lparr>title := JNum (Fin 5)\<rparr>]
       (no_query\<lparr>query_title := JStr (ascii ''sho'')\<rparr>) = Inl TypeError"
proof (intro conjI)
  show "filterProducts lower_ascii [shoe] (no_query\<lparr>query_title := JStr (ascii ''sho '')\<rparr>)
      = Inr [shoe]"
    by code_simp
  show "\<not> contains_ci lower_ascii (title_text shoe) (ascii ''sho '')"
    by code_simp
  show "filterProducts lower_ascii [shoe\<lparr>title := JNum (Fin 5)\<rparr>]
       (no_query\<lparr>query_title := JStr (ascii ''sho'')\<rparr>) = Inl TypeError"
    by code_simp
qed

subsection \<open>Normal completion\<close>

lemma narrow_title_returns:
  assumes "absent_or_string (query_title q)" and "\<forall>p\<in>set ps. text_or_absent (title p)"
  shows "\<exists>r. narrow (title_constraint lower q) ps = Inr r"
proof (cases "query_title q")
  case (JStr s)
  show ?thesis
  proof (cases "trim s = []")
    case True
    with JStr have "absent_or_blank (query_title q)"
      by (simp add: absent_or_blank_def)
    then show ?thesis
      by (simp add: title_constraint_blank narrow_def)
  next
    case False
    from narrow_title [OF JStr False assms(2)] show ?thesis by blast
  qed
qed (use assms(1) in \<open>simp_all add: absent_or_string_def title_constraint_def text_guard_def narrow_def\<close>)

lemma slug_constraint_string:
  assumes "absent_or_string (query_slug q)"
  shows "narrow (slug_constraint q) ([] :: 'a product_scheme list) = Inr []"
  using assms
  by (cases "query_slug q")
     (auto simp: absent_or_string_def slug_constraint_def text_guard_def narrow_def)

text \<open>
  C8, as amended. For every list of records whose titles are text or absent, and every
  query whose four fields are absent or strings, \<open>filterProducts\<close> completes normally
  and returns a list.
\<close>

theorem filterProducts_returns:
  assumes "absent_or_string (query_title q)" and "absent_or_string (query_slug q)"
    and "absent_or_string (query_minPrice q)" and "absent_or_string (query_maxPrice q)"
    and "\<forall>p\<in>set ps. text_or_absent (title p)"
  shows "\<exists>r. filterProducts lower ps q = Inr r"
proof -
  obtain r1 where r1: "narrow (title_constraint lower q) ps = Inr r1"
    using narrow_title_returns [OF assms(1,5)] by blast
  from later_blocks [of q, where 'a = 'a] show ?thesis
  proof
    assume "\<exists>e. \<forall>xs :: 'a product_scheme list. narrow (slug_constraint q) xs = Inl e"
    then have False
      using slug_constraint_string [OF assms(2), where 'a = 'a] by auto
    then show ?thesis ..
  next
    assume "\<exists>P. \<forall>xs :: 'a product_scheme list.
      (case narrow (slug_constraint q) xs of
         Inl e \<Rightarrow> Inl e
       | Inr r2 \<Rightarrow>
           (case narrow (minPrice_constraint q) r2 of
              Inl e \<Rightarrow> Inl e
            | Inr r3 \<Rightarrow> narrow (maxPrice_constraint q) r3)) = Inr (filter P xs)"
    then show ?thesis
      by (auto simp: filterProducts_def r1)
  qed
qed

theorem filterProducts_returns_witness:
  "absent_or_string (JStr (ascii ''oe'')) \<and> absent_or_string JUndefined
   \<and> absent_or_string (JStr (ascii ''5'')) \<and> absent_or_string (JStr (ascii ''abc''))
   \<and> text_or_absent (title shoe) \<and> text_or_absent (title (hat\<lparr>title := JUndefined\<rparr>))
   \<and> text_or_absent (title (hat\<lparr>title := JNull\<rparr>))
   \<and> (\<exists>r. filterProducts lower_ascii
              [shoe, hat\<lparr>title := JUndefined\<rparr>, hat\<lparr>title := JNull\<rparr>]
         \<lparr>query_title = JStr (ascii ''oe''), query_slug = JUndefined,
          query_minPrice = JStr (ascii ''5''), query_maxPrice = JStr (ascii ''abc'')\<rparr> = Inr r)"
proof -
  let ?ps = "[shoe, hat\<lparr>title := JUndefined\<rparr>, hat\<lparr>title := JNull\<rparr>]"
  let ?q = "\<lparr>query_title = JStr (ascii ''oe''), query_slug = JUndefined,
          query_minPrice = JStr (ascii ''5''), query_maxPrice = JStr (ascii ''abc'')\<rparr>"
  have h: "\<forall>p\<in>set ?ps. text_or_absent (title p)"
    by (simp add: text_or_absent_def shoe_def hat_def)
  have s: "absent_or_string (JStr (ascii ''oe''))" "absent_or_string JUndefined"
    "absent_or_string (JStr (ascii ''5''))" "absent_or_string (JStr (ascii ''abc''))"
    by (simp_all add: absent_or_string_def)
  have "\<exists>r. filterProducts lower_ascii ?ps ?q = Inr r"
    by (rule filterProducts_returns) (use h s in simp_all)
  with h s show ?thesis by simp
qed

text \<open>
  C8 as stated fails on a record whose title is a value other than text that counts as
  true, such as a number: the title callback calls \<open>toLowerCase\<close> on it.
\<close>

theorem filterProducts_returns_counterexample:
  "absent_or_string (JStr (ascii ''a'')) \<and> absent_or_string JUndefined
   \<and> filterProducts lower_ascii
        [\<lparr>title = JNum (Fin 5), slug = JStr (ascii ''five''), price = JNum (Fin 1)\<rparr>]
        \<lparr>query_title = JStr (ascii ''a''), query_slug = JUndefined,
         query_minPrice = JUndefined, query_maxPrice = JUndefined\<rparr> = Inl TypeError"
proof -
  have "filterProducts lower_ascii
        [\<lparr>title = JNum (Fin 5), slug = JStr (ascii ''five''), price = JNum (Fin 1)\<rparr>]
        \<lparr>query_title = JStr (ascii ''a''), query_slug = JUndefined,
         query_minPrice = JUndefined, query_maxPrice = JUndefined\<rparr> = Inl TypeError"
    by code_simp
  then show ?thesis
    by (simp add: absent_or_string_def)
qed

section \<open>Properties of the filter on the store\<close>

lemma store_le_refl: "store_le st st"
  by (simp add: store_le_def)

lemma store_le_trans: "store_le a b \<Longrightarrow> store_le b c \<Longrightarrow> store_le a c"
  by (auto simp: store_le_def)

lemma new_array_le:
  "new_array refs st = (a, st') \<Longrightarrow> store_le st st' \<and> a = next_addr st \<and> a < next_addr st'"
  by (auto simp: new_array_def store_le_def)

lemma spread_le:
  assumes "spread products st = (res, st')"
  shows "store_le st st'" and "res = Inr r \<Longrightarrow> next_addr st \<le> r \<and> r < next_addr st'"
  using assms
  by (auto simp: spread_def store_le_refl split: option.splits prod.splits dest: new_array_le)

lemma narrow_st_le:
  assumes "narrow_st c result st = (res, st')"
  shows "store_le st st'"
    and "res = Inr r \<Longrightarrow> r = result \<or> (next_addr st \<le> r \<and> r < next_addr st')"
  using assms
  by (auto simp: narrow_st_def store_le_refl split: sum.splits option.splits prod.splits
      dest: new_array_le)

text \<open>What each step of the call keeps true of its outcome, from the store \<open>st\<close> of the
  call on: the store has only grown, and a reference left in \<open>result\<close> is to an array
  allocated since.\<close>

lemma and_then_narrow_st:
  assumes "and_then m (narrow_st c) = (res', st'')"
    and "\<And>res st' r. m = (res, st') \<Longrightarrow> store_le st st' \<and> (res = Inr r \<longrightarrow> next_addr st \<le> r)"
  shows "store_le st st'' \<and> (res' = Inr r' \<longrightarrow> next_addr st \<le> r')"
proof (cases m)
  case (Pair res st')
  note m = assms(2) [OF Pair]
  show ?thesis
  proof (cases res)
    case (Inl e)
    with Pair assms(1) m show ?thesis by (simp add: and_then_def)
  next
    case (Inr result)
    with Pair assms(1) have n: "narrow_st c result st' = (res', st'')"
      by (simp add: and_then_def)
    have "store_le st st''"
      using m [of result] narrow_st_le(1) [OF n] by (blast intro: store_le_trans)
    moreover have "next_addr st \<le> r'" if "res' = Inr r'"
      using narrow_st_le(2) [OF n that] m [of result] Inr
      by (auto simp: store_le_def)
    ultimately show ?thesis by blast
  qed
qed

lemma filterProducts_st_le:
  assumes "filterProducts_st lower products q st = (res, st')"
  shows "store_le st st' \<and> (res = Inr r \<longrightarrow> next_addr st \<le> r)"
  using assms unfolding filterProducts_st_def
  apply (rule and_then_narrow_st)
  apply (erule and_then_narrow_st)
  apply (erule and_then_narrow_st)
  apply (erule and_then_narrow_st)
  apply (auto dest: spread_le)
  done


lemma records_of_le:
  "store_le st st' \<Longrightarrow> a < next_addr st \<Longrightarrow> records_of st' a = records_of st a"
  by (auto simp: store_le_def records_of_def split: option.splits)

text \<open>
  C9. \<open>filterProducts\<close> does not change its input: after the call, whether it returned
  or raised, the array \<open>products\<close> holds the same references, every record is as it was
  (so the list of records that \<open>products\<close> denotes is the same), every other array that
  existed before the call is as it was, and a returned array is a new one, not
  \<open>products\<close> itself.
\<close>

theorem filterProducts_st_frame:
  assumes "products < next_addr st" and "filterProducts_st lower products q st = (res, st')"
  shows "arrays st' products = arrays st products \<and> objects st' = objects st
    \<and> records_of st' products = records_of st products
    \<and> store_le st st' \<and> res \<noteq> Inr products"
proof -
  have le: "store_le st st'" and fresh: "res = Inr r \<Longrightarrow> next_addr st \<le> r" for r
    using filterProducts_st_le [OF assms(2)] by blast+
  have "res \<noteq> Inr products"
    using fresh [of products] assms(1) by auto
  moreover have "arrays st' products = arrays st products" "objects st' = objects st"
    using le assms(1) by (simp_all add: store_le_def)
  ultimately show ?thesis
    using le records_of_le [OF le assms(1)] by simp
qed

theorem filterProducts_st_frame_witness:
  "2 < next_addr example_store
   \<and> fst (filterProducts_st lower_ascii 2 (no_query\<lparr>query_minPrice := JStr (ascii ''20'')\<rparr>) example_store) = Inr 4
   \<and> records_of example_store 2 = Some [shoe, hat]
   \<and> records_of (snd (filterProducts_st lower_ascii 2 (no_query\<lparr>query_minPrice := JStr (ascii ''20'')\<rparr>)
                        example_store)) 2 = Some [shoe, hat]
   \<and> records_of (snd (filterProducts_st lower_ascii 2 (no_query\<lparr>query_minPrice := JStr (ascii ''20'')\<rparr>)
                        example_store)) 4 = Some [hat]
   \<and> objects (snd (filterProducts_st lower_ascii 2 (no_query\<lparr>query_minPrice := JStr (ascii ''20'')\<rparr>)
                     example_store)) = objects example_store"
proof -
  let ?q = "no_query\<lparr>query_minPrice := JStr (ascii ''20'')\<rparr>"
  have h: "2 < next_addr example_store"
    by (simp add: example_store_def)
  have r: "fst (filterProducts_st lower_ascii 2 ?q example_store) = Inr 4"
    by code_simp
  have a: "records_of example_store 2 = Some [shoe, hat]"
    by code_simp
  have b: "records_of (snd (filterProducts_st lower_ascii 2 ?q example_store)) 4 = Some [hat]"
    by code_simp
  from filterProducts_st_frame [OF h surjective_pairing, where lower = lower_ascii and q = ?q]
    h r a b
  show ?thesis by simp
qed

subsection \<open>The store-level filter computes the value-level one\<close>

lemma filter_js_on_record:
  assumes "list_all (\<lambda>r. objects st r \<noteq> None) refs"
  shows "filter_js f (map (\<lambda>r. the (objects st r)) refs) =
     (case filter_js (on_record st f) refs of
        Inl e \<Rightarrow> Inl e
      | Inr kept \<Rightarrow> Inr (map (\<lambda>r. the (objects st r)) kept))"
  using assms
  by (induction refs) (auto simp: on_record_def split: sum.splits)

lemma narrow_st_refines:
  assumes "records_of st a = Some xs" and "narrow_st c a st = (res, st')"
  shows "case res of
           Inl e \<Rightarrow> narrow c xs = Inl e
         | Inr b \<Rightarrow> \<exists>ys. records_of st' b = Some ys \<and> narrow c xs = Inr ys"
proof (cases c)
  case (Inl e)
  with assms show ?thesis by (auto simp: narrow_st_def narrow_def)
next
  case (Inr cb)
  show ?thesis
  proof (cases cb)
    case None
    with Inr assms show ?thesis by (auto simp: narrow_st_def narrow_def)
  next
    case (Some f)
    from assms(1) obtain refs where refs: "arrays st a = Some refs"
      "list_all (\<lambda>r. objects st r \<noteq> None) refs" "xs = map (\<lambda>r. the (objects st r)) refs"
      by (auto simp: records_of_def split: option.splits if_splits)
    note fj = filter_js_on_record [OF refs(2), of f]
    show ?thesis
    proof (cases "filter_js (on_record st f) refs")
      case (Inl e)
      with Inr Some refs assms(2) fj show ?thesis
        by (auto simp: narrow_st_def narrow_def)
    next
      case kept: (Inr kept)
      have "set kept \<subseteq> set refs"
        using kept by (intro subseq_imp_subset filter_js_subseq)
      then have v: "list_all (\<lambda>r. objects st r \<noteq> None) kept"
        using refs(2) by (auto simp: list_all_iff)
      from Inr Some refs assms(2) kept have r: "res = Inr (next_addr st)"
        "st' = st\<lparr>arrays := (arrays st)(next_addr st \<mapsto> kept), next_addr := Suc (next_addr st)\<rparr>"
        by (auto simp: narrow_st_def new_array_def)
      have "records_of st' (next_addr st) = Some (map (\<lambda>r. the (objects st r)) kept)"
        using v by (simp add: r records_of_def)
      moreover have "narrow c xs = Inr (map (\<lambda>r. the (objects st r)) kept)"
        using Inr Some refs(3) fj kept by (simp add: narrow_def)
      ultimately show ?thesis by (simp add: r)
    qed
  qed
qed

lemma spread_refines:
  assumes "records_of st a = Some xs" and "spread a st = (res, st')"
  shows "\<exists>b. res = Inr b \<and> records_of st' b = Some xs"
  using assms
  by (auto simp: spread_def new_array_def records_of_def split: option.splits if_splits)

lemma filterProducts_st_refines:
  assumes "records_of st products = Some ps"
    and "filterProducts_st lower products q st = (res, st')"
  shows "case res of
           Inl e \<Rightarrow> filterProducts lower ps q = Inl e
         | Inr r \<Rightarrow> \<exists>rs. records_of st' r = Some rs \<and> filterProducts lower ps q = Inr rs"
proof -
  obtain x0 s0 where x0: "spread products st = (x0, s0)"
    by (cases "spread products st")
  obtain r0 where r0: "x0 = Inr r0" "records_of s0 r0 = Some ps"
    using spread_refines [OF assms(1) x0] by blast
  obtain x1 s1 where x1: "narrow_st (title_constraint lower q) r0 s0 = (x1, s1)"
    by (cases "narrow_st (title_constraint lower q) r0 s0")
  note n1 = narrow_st_refines [OF r0(2) x1]
  show ?thesis
  proof (cases x1)
    case (Inl e)
    with n1 assms(2) x0 r0 x1 show ?thesis
      by (auto simp: filterProducts_st_def and_then_def filterProducts_def)
  next
    case (Inr r1)
    with n1 obtain p1 where p1: "records_of s1 r1 = Some p1"
      "narrow (title_constraint lower q) ps = Inr p1" by auto
    obtain x2 s2 where x2: "narrow_st (slug_constraint q) r1 s1 = (x2, s2)"
      by (cases "narrow_st (slug_constraint q) r1 s1")
    note n2 = narrow_st_refines [OF p1(1) x2]
    show ?thesis
    proof (cases x2)
      case (Inl e)
      with n2 assms(2) x0 r0 x1 Inr p1 x2 show ?thesis
        by (auto simp: filterProducts_st_def and_then_def filterProducts_def)
    next
      case r2: (Inr r2)
      with n2 obtain p2 where p2: "records_of s2 r2 = Some p2"
        "narrow (slug_constraint q) p1 = Inr p2" by auto
      obtain x3 s3 where x3: "narrow_st (minPrice_constraint q) r2 s2 = (x3, s3)"
        by (cases "narrow_st (minPrice_constraint q) r2 s2")
      note n3 = narrow_st_refines [OF p2(1) x3]
      show ?thesis
      proof (cases x3)
        case (Inl e)
        with n3 assms(2) x0 r0 x1 Inr p1 x2 r2 p2 x3 show ?thesis
          by (auto simp: filterProducts_st_def and_then_def filterProducts_def)
      next
        case r3: (Inr r3)
        with n3 obtain p3 where p3: "records_of s3 r3 = Some p3"
          "narrow (minPrice_constraint q) p2 = Inr p3" by auto
        have x4: "narrow_st (maxPrice_constraint q) r3 s3 = (res, st')"
          using assms(2) x0 r0 x1 Inr x2 r2 x3 r3
          by (simp add: filterProducts_st_def and_then_def)
        from narrow_st_refines [OF p3(1) x4] show ?thesis
          by (cases res) (auto simp: filterProducts_def p1 p2 p3)
      qed
    qed
  qed
qed

section \<open>Properties of the fetcher\<close>

lemma try_block_failed: "failed out \<Longrightarrow> try_block out = None"
  by (cases out) (auto simp: failed_def)

lemma try_block_succeeded: "succeeded_with out payload \<Longrightarrow> try_block out = Some payload"
  by (cases out) (auto simp: succeeded_with_def)

text \<open>The three iterations of the loop, the last one first.\<close>

declare getAll_loop.simps [simp del]

lemma getAll_loop_3:
  "getAll_loop upstream 3 w =
     (case try_block (upstream (calls w)) of
        Some payload \<Rightarrow> (payload, w\<lparr>calls := Suc (calls w)\<rparr>)
      | None \<Rightarrow> ([], w\<lparr>calls := Suc (calls w)\<rparr>))"
  by (subst getAll_loop.simps) (simp add: FETCH_RETRIES_def fetch_def cong: option.case_cong)

lemma getAll_loop_2:
  "getAll_loop upstream 2 w =
     (case try_block (upstream (calls w)) of
        Some payload \<Rightarrow> (payload, w\<lparr>calls := Suc (calls w)\<rparr>)
      | None \<Rightarrow> getAll_loop upstream 3 (sleep 2000 (w\<lparr>calls := Suc (calls w)\<rparr>)))"
  by (subst getAll_loop.simps) (simp add: FETCH_RETRIES_def fetch_def cong: option.case_cong)

lemma getAll_loop_1:
  "getAll upstream w =
     (case try_block (upstream (calls w)) of
        Some payload \<Rightarrow> (payload, w\<lparr>calls := Suc (calls w)\<rparr>)
      | None \<Rightarrow> getAll_loop upstream 2 (sleep 2000 (w\<lparr>calls := Suc (calls w)\<rparr>)))"
  unfolding getAll_def
  by (subst getAll_loop.simps)
     (simp add: FETCH_RETRIES_def fetch_def numeral_2_eq_2 cong: option.case_cong)

lemmas getAll_unfold = getAll_loop_1 getAll_loop_2 getAll_loop_3 sleep_def

lemma getAll_all_failed:
  assumes "\<forall>k<3. failed (upstream (calls w + k))"
  shows "getAll upstream w = ([], w\<lparr>calls := calls w + 3, waited_ms := waited_ms w + 4000\<rparr>)"
proof -
  have "try_block (upstream (calls w)) = None" "try_block (upstream (Suc (calls w))) = None"
    "try_block (upstream (Suc (Suc (calls w)))) = None"
    using assms [rule_format, of 0] assms [rule_format, of 1] assms [rule_format, of 2]
    by (simp_all add: try_block_failed)
  then show ?thesis
    by (simp add: getAll_unfold)
qed

lemma getAll_first_success:
  assumes "k < 3" and "\<forall>j<k. failed (upstream (calls w + j))"
    and "succeeded_with (upstream (calls w + k)) payload"
  shows "getAll upstream w =
           (payload, w\<lparr>calls := calls w + Suc k, waited_ms := waited_ms w + 2000 * k\<rparr>)"
proof -
  consider "k = 0" | "k = 1" | "k = 2" using assms(1) by linarith
  then show ?thesis
  proof cases
    case 1
    then show ?thesis
      using try_block_succeeded [OF assms(3)] by (simp add: getAll_unfold)
  next
    case 2
    then show ?thesis
      using try_block_succeeded [OF assms(3)] try_block_failed [OF assms(2) [rule_format, of 0]]
      by (simp add: getAll_unfold)
  next
    case 3
    then show ?thesis
      using try_block_succeeded [OF assms(3)] try_block_failed [OF assms(2) [rule_format, of 0]]
        try_block_failed [OF assms(2) [rule_format, of 1]]
      by (simp add: getAll_unfold)
  qed
qed

lemma getAll_calls_bound:
  "calls w < calls (snd (getAll upstream w)) \<and> calls (snd (getAll upstream w)) \<le> calls w + 3"
  by (simp add: getAll_unfold split: option.splits)

text \<open>
  C1. With the upstream as the sequence of the outcomes of the \<open>fetch\<close> calls: if each
  of the 3 attempts (the first and 2 retries) fails, \<open>getAll\<close> returns the empty list
  (it has no path that raises) after exactly 3 calls; if attempt \<open>k + 1\<close> of the 3
  succeeds after the earlier ones failed, \<open>getAll\<close> returns that attempt's parsed
  payload and makes no further call; and no more than 3 calls are ever made.
\<close>

theorem getAll_retries:
  "((\<forall>k<3. failed (upstream (calls w + k))) \<longrightarrow>
      fst (getAll upstream w) = [] \<and> calls (snd (getAll upstream w)) = calls w + 3)
   \<and> (k < 3 \<and> (\<forall>j<k. failed (upstream (calls w + j)))
        \<and> succeeded_with (upstream (calls w + k)) payload \<longrightarrow>
      fst (getAll upstream w) = payload \<and> calls (snd (getAll upstream w)) = calls w + Suc k)
   \<and> calls (snd (getAll upstream w)) \<le> calls w + 3"
proof (intro conjI impI)
  assume "\<forall>k<3. failed (upstream (calls w + k))"
  from getAll_all_failed [OF this]
  show "fst (getAll upstream w) = []" and "calls (snd (getAll upstream w)) = calls w + 3"
    by simp_all
next
  assume a: "k < 3 \<and> (\<forall>j<k. failed (upstream (calls w + j)))
        \<and> succeeded_with (upstream (calls w + k)) payload"
  then have "getAll upstream w =
      (payload, w\<lparr>calls := calls w + Suc k, waited_ms := waited_ms w + 2000 * k\<rparr>)"
    by (intro getAll_first_success) simp_all
  then show "fst (getAll upstream w) = payload"
    and "calls (snd (getAll upstream w)) = calls w + Suc k"
    by simp_all
next
  show "calls (snd (getAll upstream w)) \<le> calls w + 3"
    using getAll_calls_bound by blast
qed


theorem getAll_retries_witness:
  "failed (Response 503 None :: product list outcome)
   \<and> fst (getAll (\<lambda>n. Response 503 None :: product list outcome) \<lparr>calls = 0, waited_ms = 0\<rparr>)
       = []
   \<and> calls (snd (getAll (\<lambda>n. Response 503 None :: product list outcome)
                     \<lparr>calls = 0, waited_ms = 0\<rparr>)) = 3
   \<and> failed (NetworkError :: product list outcome)
   \<and> succeeded_with (Response 200 (Some [shoe, hat])) [shoe, hat]
   \<and> fst (getAll (\<lambda>n. if n < 2 then NetworkError else Response 200 (Some [shoe, hat]))
              \<lparr>calls = 0, waited_ms = 0\<rparr>) = [shoe, hat]
   \<and> calls (snd (getAll (\<lambda>n. if n < 2 then NetworkError else Response 200 (Some [shoe, hat]))
                     \<lparr>calls = 0, waited_ms = 0\<rparr>)) = 3"
proof -
  let ?w = "\<lparr>calls = 0, waited_ms = 0\<rparr>"
  let ?dead = "\<lambda>n::nat. Response 503 None :: product list outcome"
  let ?flaky = "\<lambda>n::nat. if n < 2 then NetworkError else Response 200 (Some [shoe, hat])"
  have d: "failed (Response 503 None :: product list outcome)"
    by (simp add: failed_def ok_def)
  then have dead: "\<forall>k<3. failed (?dead (calls ?w + k))"
    by simp
  have n: "failed (NetworkError :: product list outcome)"
    by (simp add: failed_def)
  then have flaky: "\<forall>j<2. failed (?flaky (calls ?w + j))"
    by simp
  have s: "succeeded_with (Response 200 (Some [shoe, hat])) [shoe, hat]"
    by (simp add: succeeded_with_def ok_def)
  then have "succeeded_with (?flaky (calls ?w + 2)) [shoe, hat]"
    by simp
  with getAll_retries [of ?dead ?w 0 "[]"] getAll_retries [of ?flaky ?w 2 "[shoe, hat]"]
    d dead n flaky s
  show ?thesis by simp
qed

subsection \<open>The single-item path\<close>

text \<open>
  C7. \<open>getById\<close> returns \<open>null\<close> when its one attempt fails (a network error or a status
  outside 2xx) and the parsed body when it succeeds. The handler of
  \<open>GET /api/products/:id\<close> replies with status 200 and the product as JSON when
  \<open>getById\<close> yields a record, and with status 404 and the JSON object with the \<open>error\<close>
  field when it yields \<open>null\<close>.
\<close>

theorem getById_route:
  "(failed (upstream (API_PRODUCTS @ ''/'' @ ident)) \<longrightarrow>
      getById upstream ident = Primitive JNull)
   \<and> (succeeded_with (upstream (API_PRODUCTS @ ''/'' @ ident)) body \<longrightarrow>
      getById upstream ident = body)
   \<and> (getById upstream ident = Record p \<longrightarrow>
      product_route upstream ident = Reply 200 (ProductJson (Record p)))
   \<and> (getById upstream ident = Primitive JNull \<longrightarrow>
      product_route upstream ident = Reply 404 ErrorJson)"
proof (intro conjI impI)
  assume "failed (upstream (API_PRODUCTS @ ''/'' @ ident))"
  then show "getById upstream ident = Primitive JNull"
    by (auto simp: failed_def getById_def split: outcome.splits)
next
  assume "succeeded_with (upstream (API_PRODUCTS @ ''/'' @ ident)) body"
  then show "getById upstream ident = body"
    by (auto simp: succeeded_with_def getById_def split: outcome.splits)
next
  assume "getById upstream ident = Record p"
  then show "product_route upstream ident = Reply 200 (ProductJson (Record p))"
    by (simp add: product_route_def)
next
  assume "getById upstream ident = Primitive JNull"
  then show "product_route upstream ident = Reply 404 ErrorJson"
    by (simp add: product_route_def)
qed

theorem getById_route_witness:
  "failed (Response 404 None :: product item outcome)
   \<and> getById (\<lambda>url. if url = ''https://api.escuelajs.co/api/v1/products/7''
                      then Response 200 (Some (Record hat)) else Response 404 None) ''8''
       = Primitive JNull
   \<and> product_route (\<lambda>url. if url = ''https://api.escuelajs.co/api/v1/products/7''
                      then Response 200 (Some (Record hat)) else Response 404 None) ''8''
       = Reply 404 ErrorJson
   \<and> succeeded_with (Response 200 (Some (Record hat))) (Record hat)
   \<and> getById (\<lambda>url. if url = ''https://api.escuelajs.co/api/v1/products/7''
                      then Response 200 (Some (Record hat)) else Response 404 None) ''7''
       = Record hat
   \<and> product_route (\<lambda>url. if url = ''https://api.escuelajs.co/api/v1/products/7''
                      then Response 200 (Some (Record hat)) else Response 404 None) ''7''
       = Reply 200 (ProductJson (Record hat))"
proof -
  let ?up = "\<lambda>url. if url = ''https://api.escuelajs.co/api/v1/products/7''
                      then Response 200 (Some (Record hat)) else Response 404 None"
  have f: "failed (Response 404 None :: product item outcome)"
    by (simp add: failed_def ok_def)
  then have f8: "failed (?up (API_PRODUCTS @ ''/'' @ ''8''))"
    by (simp add: API_PRODUCTS_def)
  have s: "succeeded_with (Response 200 (Some (Record hat))) (Record hat)"
    by (simp add: succeeded_with_def ok_def)
  then have s7: "succeeded_with (?up (API_PRODUCTS @ ''/'' @ ''7'')) (Record hat)"
    by (simp add: API_PRODUCTS_def)
  from getById_route [of ?up "''8''" "Primitive JNull" hat] f8
  have a: "getById ?up ''8'' = Primitive JNull" "product_route ?up ''8'' = Reply 404 ErrorJson"
    by simp_all
  from getById_route [of ?up "''7''" "Record hat" hat] s7
  have b: "getById ?up ''7'' = Record hat"
    "product_route ?up ''7'' = Reply 200 (ProductJson (Record hat))"
    by simp_all
  from f s a b show ?thesis by simp
qed

end
